theory Spec2Isabelle
  imports Main "HOL-Library.Sublist"
begin

section \<open>JavaScript strings\<close>

text \<open>
  A JavaScript string is a sequence of UTF-16 code units; the regular expressions of the
  component have no \<open>u\<close> flag, so \<open>.\<close>, \<open>\s\<close> and the literals all work on code units.
  The two emoji of the quiz protocol are single code units (U+2705 and U+274C).
\<close>

type_synonym jschar = nat
type_synonym jsstring = "jschar list"

definition js :: "string \<Rightarrow> jsstring" where
  "js s = map of_char s"

definition CHECK :: jschar where
  "CHECK = 0x2705"

definition CROSS :: jschar where
  "CROSS = 0x274C"

definition NL :: jschar where
  "NL = 10"

text \<open>The class \<open>\s\<close> (WhiteSpace and LineTerminator), which is also what \<open>trim()\<close> strips.\<close>

definition isWhiteSpace :: "jschar \<Rightarrow> bool" where
  "isWhiteSpace c =
     (c = 9 \<or> c = 10 \<or> c = 11 \<or> c = 12 \<or> c = 13 \<or> c = 32 \<or> c = 0xA0 \<or> c = 0x1680 \<or>
      (0x2000 \<le> c \<and> c \<le> 0x200A) \<or> c = 0x2028 \<or> c = 0x2029 \<or> c = 0x202F \<or>
      c = 0x205F \<or> c = 0x3000 \<or> c = 0xFEFF)"

text \<open>The class \<open>.\<close> is every code unit that is not a LineTerminator.\<close>

definition isLineTerminator :: "jschar \<Rightarrow> bool" where
  "isLineTerminator c = (c = 10 \<or> c = 13 \<or> c = 0x2028 \<or> c = 0x2029)"

text \<open>The class \<open>[A-D]\<close>.\<close>

definition isAD :: "jschar \<Rightarrow> bool" where
  "isAD c = (65 \<le> c \<and> c \<le> 68)"

definition trim :: "jsstring \<Rightarrow> jsstring" where
  "trim s = rev (dropWhile isWhiteSpace (rev (dropWhile isWhiteSpace s)))"

definition includesStr :: "jsstring \<Rightarrow> jsstring \<Rightarrow> bool" where
  "includesStr s sub = sublist sub s"

definition startsWith :: "jsstring \<Rightarrow> jsstring \<Rightarrow> bool" where
  "startsWith s p = prefix p s"

text \<open>\<open>content.split('\n')\<close>: never empty, the empty string gives one empty line.\<close>

fun split_nl :: "jsstring \<Rightarrow> jsstring list" where
  "split_nl [] = [[]]"
| "split_nl (c # cs) =
     (if c = NL then [] # split_nl cs
      else (case split_nl cs of [] \<Rightarrow> [[c]] | l # ls \<Rightarrow> (c # l) # ls))"

text \<open>\<open>questionLines.join('\n')\<close>.\<close>

fun join_nl :: "jsstring list \<Rightarrow> jsstring" where
  "join_nl [] = []"
| "join_nl [l] = l"
| "join_nl (l # k # ls) = l @ NL # join_nl (k # ls)"

text \<open>\<open>s.replace(/\*\*/g, '')\<close>: every non-overlapping \<open>**\<close>, left to right, is removed.\<close>

fun removeStars :: "jsstring \<Rightarrow> jsstring" where
  "removeStars (a # b # cs) =
     (if a = 42 \<and> b = 42 then removeStars cs else a # removeStars (b # cs))"
| "removeStars cs = cs"

section \<open>The regular expressions of parseQuizQuestion\<close>

text \<open>
  \<open>(.+)$\<close> at the start of \<open>s\<close>: the greedy \<open>.+\<close> takes the longest run without a line
  terminator, and \<open>$\<close> (no \<open>m\<close> flag) holds at the end of the input only.
\<close>

definition dotPlusEnd :: "jsstring \<Rightarrow> jsstring option" where
  "dotPlusEnd s = (if s \<noteq> [] \<and> (\<forall>c \<in> set s. \<not> isLineTerminator c) then Some s else None)"

text \<open>
  \<open>\s+(.+)$\<close> at the start of \<open>s\<close>, returning the group: the greedy \<open>\s+\<close> first tries one
  more white space and gives it back when the rest fails.
\<close>

fun spacesText :: "jsstring \<Rightarrow> jsstring option" where
  "spacesText [] = None"
| "spacesText (c # cs) =
     (if isWhiteSpace c
      then (case spacesText cs of Some g \<Rightarrow> Some g | None \<Rightarrow> dotPlusEnd cs)
      else None)"

text \<open>\<open>([A-D])\.\s+(.+)$\<close> at the start of \<open>s\<close>, returning groups 1 and 2.\<close>

fun letterDotText :: "jsstring \<Rightarrow> (jschar \<times> jsstring) option" where
  "letterDotText (l # d # cs) =
     (if isAD l \<and> d = 46
      then (case spacesText cs of Some g \<Rightarrow> Some (l, g) | None \<Rightarrow> None)
      else None)"
| "letterDotText cs = None"

text \<open>\<open>\s*([A-D])\.\s+(.+)$\<close> at the start of \<open>s\<close>: the greedy \<open>\s*\<close>, with backtracking.\<close>

fun spacesLetterDotText :: "jsstring \<Rightarrow> (jschar \<times> jsstring) option" where
  "spacesLetterDotText [] = None"
| "spacesLetterDotText (c # cs) =
     (if isWhiteSpace c
      then (case spacesLetterDotText cs of Some m \<Rightarrow> Some m | None \<Rightarrow> letterDotText (c # cs))
      else letterDotText (c # cs))"

text \<open>\<open>s.match(/^MARK\s*([A-D])\.\s+(.+)$/)\<close> for MARK one of the two emoji.\<close>

fun markedMatch :: "jschar \<Rightarrow> jsstring \<Rightarrow> (jschar \<times> jsstring) option" where
  "markedMatch mark [] = None"
| "markedMatch mark (c # cs) = (if c = mark then spacesLetterDotText cs else None)"

text \<open>\<open>s.match(/^([A-D])\.\s+(.+)$/)\<close>.\<close>

definition normalMatch :: "jsstring \<Rightarrow> (jschar \<times> jsstring) option" where
  "normalMatch s = letterDotText s"

text \<open>
  \<open>/\[CORRECT:([A-D])\]/\<close>: the marker at the start of \<open>s\<close>, then the leftmost occurrence
  anywhere in \<open>s\<close> (the pattern is not anchored); the result is group 1.
\<close>

definition markerHere :: "jsstring \<Rightarrow> jschar option" where
  "markerHere s =
     (if startsWith s (js ''[CORRECT:'')
      then (case drop 9 s of
              l # r # _ \<Rightarrow> (if isAD l \<and> r = 93 then Some l else None)
            | _ \<Rightarrow> None)
      else None)"

fun correctAnswerMatch :: "jsstring \<Rightarrow> jschar option" where
  "correctAnswerMatch [] = None"
| "correctAnswerMatch (c # cs) =
     (case markerHere (c # cs) of Some l \<Rightarrow> Some l | None \<Rightarrow> correctAnswerMatch cs)"

text \<open>
  \<open>/[A-D]\.\s+.+/g.test(content)\<close> on a fresh regular expression: \<open>\s+.+\<close> at the start of
  \<open>s\<close>, then the whole pattern at the start of \<open>s\<close>, then anywhere in \<open>s\<close>.
\<close>

fun spacesDot :: "jsstring \<Rightarrow> bool" where
  "spacesDot [] = False"
| "spacesDot (c # cs) =
     (isWhiteSpace c \<and>
      (spacesDot cs \<or> (case cs of [] \<Rightarrow> False | d # _ \<Rightarrow> \<not> isLineTerminator d)))"

fun optionHere :: "jsstring \<Rightarrow> bool" where
  "optionHere (l # d # cs) = (isAD l \<and> d = 46 \<and> spacesDot cs)"
| "optionHere cs = False"

fun hasOptions :: "jsstring \<Rightarrow> bool" where
  "hasOptions [] = False"
| "hasOptions (c # cs) = (optionHere (c # cs) \<or> hasOptions cs)"

section \<open>parseQuizQuestion\<close>

datatype status = Correct | Incorrect | Normal

record quizOption =
  letter :: jsstring
  optionText :: jsstring
  status :: status

text \<open>The local variables of the line scan.\<close>

record scan =
  questionLines :: "jsstring list"
  scanOptions :: "quizOption list"
  feedbackMessage :: jsstring
  scanIsAnswered :: bool
  scanCorrectLetter :: jsstring
  foundOptions :: bool

record quizData =
  question :: jsstring
  options :: "quizOption list"
  feedback :: jsstring
  isAnswered :: bool
  correctAnswerLetter :: jsstring

definition scanStart :: scan where
  "scanStart = \<lparr>questionLines = [], scanOptions = [], feedbackMessage = [],
     scanIsAnswered = False, scanCorrectLetter = [], foundOptions = False\<rparr>"

definition pushOption :: "scan \<Rightarrow> jschar \<times> jsstring \<Rightarrow> status \<Rightarrow> scan" where
  "pushOption st m s =
     st\<lparr>foundOptions := True,
        scanOptions := scanOptions st @ [\<lparr>letter = [fst m], optionText = trim (snd m), status = s\<rparr>]\<rparr>"

definition pushQuestion :: "scan \<Rightarrow> jsstring \<Rightarrow> jsstring \<Rightarrow> scan" where
  "pushQuestion st trimmedLine line =
     (if \<not> foundOptions st \<and> trimmedLine \<noteq> []
      then st\<lparr>questionLines := questionLines st @ [line]\<rparr> else st)"

definition orElse :: "'a option \<Rightarrow> 'a option \<Rightarrow> 'a option" where
  "orElse a b = (case a of Some x \<Rightarrow> Some x | None \<Rightarrow> b)"

text \<open>The last part of the loop body: the three option forms, then the question text.\<close>

definition matchOption :: "scan \<Rightarrow> jsstring \<Rightarrow> jsstring \<Rightarrow> scan" where
  "matchOption st trimmedLine line =
     (case orElse (markedMatch CHECK trimmedLine) (markedMatch CHECK line) of
        Some m \<Rightarrow> pushOption st m Correct
      | None \<Rightarrow>
         (case orElse (markedMatch CROSS trimmedLine) (markedMatch CROSS line) of
            Some m \<Rightarrow> pushOption st m Incorrect
          | None \<Rightarrow>
             (case normalMatch trimmedLine of
                Some m \<Rightarrow>
                  (if \<not> startsWith trimmedLine [CHECK] \<and> \<not> startsWith trimmedLine [CROSS]
                   then pushOption st m Normal
                   else pushQuestion st trimmedLine line)
              | None \<Rightarrow> pushQuestion st trimmedLine line)))"

definition isFeedbackLine :: "jsstring \<Rightarrow> bool" where
  "isFeedbackLine trimmedLine =
     (includesStr trimmedLine (CHECK # js '' Correct'') \<or>
      includesStr trimmedLine (CROSS # js '' Incorrect''))"

definition isFooterLine :: "jsstring \<Rightarrow> bool" where
  "isFooterLine trimmedLine =
     (includesStr trimmedLine (js ''Type your answer'') \<or>
      includesStr trimmedLine (js ''or 'stop' to end''))"

text \<open>One iteration of \<open>for (const line of lines)\<close>; each \<open>continue\<close> is a branch.\<close>

definition scanLine :: "scan \<Rightarrow> jsstring \<Rightarrow> scan" where
  "scanLine st line =
     (let trimmedLine = trim line in
      case correctAnswerMatch trimmedLine of
        Some l \<Rightarrow> st\<lparr>scanCorrectLetter := [l]\<rparr>
      | None \<Rightarrow>
         (if isFeedbackLine trimmedLine
          then st\<lparr>feedbackMessage := removeStars trimmedLine, scanIsAnswered := True\<rparr>
          else if isFooterLine trimmedLine then st
          else matchOption st trimmedLine line))"

definition scanLines :: "scan \<Rightarrow> jsstring list \<Rightarrow> scan" where
  "scanLines st ls = foldl scanLine st ls"

definition toQuizData :: "scan \<Rightarrow> quizData option" where
  "toQuizData st =
     (if length (scanOptions st) = 4
      then Some \<lparr>question = join_nl (questionLines st), options = scanOptions st,
                 feedback = feedbackMessage st, isAnswered = scanIsAnswered st,
                 correctAnswerLetter = scanCorrectLetter st\<rparr>
      else None)"

text \<open>\<open>isUser\<close> is the component's \<open>message.role === MessageRole.USER\<close>.\<close>

definition parseQuizQuestion :: "bool \<Rightarrow> jsstring \<Rightarrow> quizData option" where
  "parseQuizQuestion isUser content =
     (if \<not> hasOptions content \<or> isUser then None
      else toQuizData (scanLines scanStart (split_nl content)))"

section \<open>The ChatMessage component\<close>

datatype role = USER | ASSISTANT | SYSTEM

text \<open>
  The interface \<open>Message\<close>. Its \<open>content\<close> is declared a string, so \<open>safeContent\<close> is the
  content itself (the first branch of the \<open>typeof\<close> test).
\<close>

record message =
  msgId :: jsstring
  chatId :: jsstring
  role :: role
  content :: jsstring
  timestamp :: jsstring

record instant =
  selectedLetter :: jsstring
  isCorrect :: bool
  correctLetter :: jsstring

text \<open>
  The state of one component instance: the two \<open>useState\<close> cells, the calls made to
  \<open>onSendMessage\<close> so far, and the value of the dependency \<open>quizData?.isAnswered\<close> at the
  last run of the effect (\<open>None\<close> before the first render).
\<close>

record chatMessage =
  selectedAnswer :: "jsstring option"
  instantFeedback :: "instant option"
  sentMessages :: "jsstring list"
  effectDep :: "bool option option"

definition mounted :: chatMessage where
  "mounted = \<lparr>selectedAnswer = None, instantFeedback = None, sentMessages = [], effectDep = None\<rparr>"

text \<open>Truthiness of a \<open>string | null\<close>: \<open>null\<close> and the empty string are falsy.\<close>

definition truthy :: "jsstring option \<Rightarrow> bool" where
  "truthy v = (case v of None \<Rightarrow> False | Some s \<Rightarrow> s \<noteq> [])"

text \<open>The first argument says whether the optional prop \<open>onSendMessage\<close> was given.\<close>

definition handleOptionClick :: "bool \<Rightarrow> chatMessage \<Rightarrow> jsstring \<Rightarrow> jsstring \<Rightarrow> chatMessage" where
  "handleOptionClick onSendMessage st l correctAnswer =
     (if onSendMessage \<and> \<not> truthy (selectedAnswer st) \<and> correctAnswer \<noteq> []
      then st\<lparr>instantFeedback :=
                 Some \<lparr>selectedLetter = l, isCorrect = (l = correctAnswer),
                       correctLetter = correctAnswer\<rparr>,
              selectedAnswer := Some l,
              sentMessages := sentMessages st @ [l]\<rparr>
      else st)"

definition buttonDisabled :: "quizData \<Rightarrow> chatMessage \<Rightarrow> bool" where
  "buttonDisabled q st = (isAnswered q \<or> selectedAnswer st \<noteq> None)"

text \<open>A click on the button of option \<open>opt\<close>; a disabled button fires no click.\<close>

definition onClick :: "bool \<Rightarrow> quizData \<Rightarrow> chatMessage \<Rightarrow> quizOption \<Rightarrow> chatMessage" where
  "onClick onSendMessage q st opt =
     (if buttonDisabled q st then st
      else if \<not> isAnswered q \<and> \<not> truthy (selectedAnswer st)
      then handleOptionClick onSendMessage st (letter opt) (correctAnswerLetter q)
      else st)"

text \<open>The effect with dependency list \<open>[quizData?.isAnswered]\<close>, run after a render.\<close>

definition isAnsweredDep :: "quizData option \<Rightarrow> bool option" where
  "isAnsweredDep quiz = map_option isAnswered quiz"

definition resetEffect :: "quizData option \<Rightarrow> chatMessage \<Rightarrow> chatMessage" where
  "resetEffect quiz st =
     (if isAnsweredDep quiz = Some True then st\<lparr>instantFeedback := None\<rparr> else st)"

definition afterRender :: "quizData option \<Rightarrow> chatMessage \<Rightarrow> chatMessage" where
  "afterRender quiz st =
     (if effectDep st = Some (isAnsweredDep quiz) then st
      else (resetEffect quiz st)\<lparr>effectDep := Some (isAnsweredDep quiz)\<rparr>)"

subsection \<open>What the component renders\<close>

datatype badge = CorrectBadge | WrongBadge

record button =
  buttonLetter :: jsstring
  buttonText :: jsstring
  buttonStatus :: status
  disabled :: bool
  instantBadges :: "badge list"
  backendBadges :: "badge list"

text \<open>
  The body of a rendered message: the plain text, or the quiz view with its question text,
  its option buttons, the instant feedback line and the feedback line of the backend.
\<close>

datatype view =
  MessageText jsstring
| QuizView jsstring "button list" "jsstring option" "jsstring option"

text \<open>\<open>instantFeedback && !quizData.isAnswered\<close>, with the overlay when it holds.\<close>

definition overlay :: "quizData \<Rightarrow> chatMessage \<Rightarrow> instant option" where
  "overlay q st = (if isAnswered q then None else instantFeedback st)"

definition statusOf :: "quizData \<Rightarrow> chatMessage \<Rightarrow> quizOption \<Rightarrow> status" where
  "statusOf q st opt =
     (case overlay q st of
        None \<Rightarrow> status opt
      | Some f \<Rightarrow>
          (if letter opt = selectedLetter f then (if isCorrect f then Correct else Incorrect)
           else if letter opt = correctLetter f then Correct
           else status opt))"

definition instantBadgesOf :: "quizData \<Rightarrow> chatMessage \<Rightarrow> quizOption \<Rightarrow> badge list" where
  "instantBadgesOf q st opt =
     (case overlay q st of
        None \<Rightarrow> []
      | Some f \<Rightarrow>
          (if letter opt = selectedLetter f \<and> isCorrect f then [CorrectBadge] else []) @
          (if letter opt = selectedLetter f \<and> \<not> isCorrect f then [WrongBadge] else []) @
          (if letter opt = correctLetter f \<and> letter opt \<noteq> selectedLetter f
           then [CorrectBadge] else []))"

definition backendBadgesOf :: "quizData \<Rightarrow> chatMessage \<Rightarrow> quizOption \<Rightarrow> badge list" where
  "backendBadgesOf q st opt =
     (if statusOf q st opt = Correct \<and> isAnswered q then [CorrectBadge] else []) @
     (if statusOf q st opt = Incorrect \<and> isAnswered q then [WrongBadge] else [])"

definition renderButton :: "quizData \<Rightarrow> chatMessage \<Rightarrow> quizOption \<Rightarrow> button" where
  "renderButton q st opt =
     \<lparr>buttonLetter = letter opt, buttonText = optionText opt, buttonStatus = statusOf q st opt,
      disabled = buttonDisabled q st, instantBadges = instantBadgesOf q st opt,
      backendBadges = backendBadgesOf q st opt\<rparr>"

definition instantLine :: "quizData \<Rightarrow> chatMessage \<Rightarrow> jsstring option" where
  "instantLine q st =
     (case overlay q st of
        None \<Rightarrow> None
      | Some f \<Rightarrow>
          Some (if isCorrect f then CHECK # js '' Correct!''
                else CROSS # js '' Incorrect. The correct answer is '' @ correctLetter f @ js ''.''))"

definition backendLine :: "quizData \<Rightarrow> jsstring option" where
  "backendLine q = (if feedback q \<noteq> [] then Some (feedback q) else None)"

definition quizDataOf :: "message \<Rightarrow> quizData option" where
  "quizDataOf m = parseQuizQuestion (role m = USER) (content m)"

definition render :: "message \<Rightarrow> chatMessage \<Rightarrow> view" where
  "render m st =
     (case quizDataOf m of
        Some q \<Rightarrow>
          QuizView (question q) (map (renderButton q st) (options q)) (instantLine q st)
            (backendLine q)
      | None \<Rightarrow> MessageText (content m))"

text \<open>Every string the rendered message body shows.\<close>

fun shownTexts :: "view \<Rightarrow> jsstring list" where
  "shownTexts (MessageText t) = [t]"
| "shownTexts (QuizView t bs i f) =
     t # concat (map (\<lambda>b. [buttonLetter b, buttonText b]) bs) @
     (case i of None \<Rightarrow> [] | Some x \<Rightarrow> [x]) @ (case f of None \<Rightarrow> [] | Some x \<Rightarrow> [x])"

subsection \<open>The life of one component instance\<close>

text \<open>
  Each button is rendered with \<open>key={option.letter}\<close>, and React matches the buttons of
  two renders by their keys. When the letters of a question repeat and the next render has
  another list of letters, buttons of the earlier render can stay in the document: enabled
  or disabled as rendered then, and with the click handler of that render, which closes over
  the question and the \<open>selectedAnswer\<close> of that render. The setters and \<open>onSendMessage\<close>
  that the handler calls act on the current state. A render without a quiz question removes
  the options block with every button in it.
\<close>

text \<open>
  A click on a button that was rendered with question \<open>q\<close> while \<open>selectedAnswer\<close> was
  \<open>sel\<close>: the \<open>disabled\<close> attribute, the test of \<open>onClick\<close> and the test of
  \<open>handleOptionClick\<close> read the values of that render.
\<close>

definition leftoverClick ::
  "bool \<Rightarrow> quizData \<Rightarrow> jsstring option \<Rightarrow> chatMessage \<Rightarrow> quizOption \<Rightarrow> chatMessage" where
  "leftoverClick onSendMessage q sel st opt =
     (if isAnswered q \<or> sel \<noteq> None then st
      else if \<not> isAnswered q \<and> \<not> truthy sel \<and>
              onSendMessage \<and> \<not> truthy sel \<and> correctAnswerLetter q \<noteq> []
      then st\<lparr>instantFeedback :=
                 Some \<lparr>selectedLetter = letter opt,
                       isCorrect = (letter opt = correctAnswerLetter q),
                       correctLetter = correctAnswerLetter q\<rparr>,
              selectedAnswer := Some (letter opt),
              sentMessages := sentMessages st @ [letter opt]\<rparr>
      else st)"

text \<open>The keys of the buttons of a question.\<close>

definition buttonKeys :: "quizData \<Rightarrow> jsstring list" where
  "buttonKeys q = map letter (options q)"

text \<open>
  The renders whose buttons can still be in the document after the question \<open>quiz\<close>,
  rendered in state \<open>st\<close>, is replaced by \<open>quiz'\<close>.
\<close>

definition leftBehind ::
  "quizData option \<Rightarrow> quizData option \<Rightarrow> chatMessage \<Rightarrow> (quizData \<times> jsstring option) list \<Rightarrow>
   (quizData \<times> jsstring option) list" where
  "leftBehind quiz quiz' st old =
     (case quiz' of
        None \<Rightarrow> []
      | Some q' \<Rightarrow>
          (case quiz of
             None \<Rightarrow> old
           | Some q \<Rightarrow>
               (if \<not> distinct (buttonKeys q) \<and> buttonKeys q \<noteq> buttonKeys q'
                then old @ [(q, selectedAnswer st)] else old)))"

text \<open>
  The state of the instance, the question rendered last, and the earlier renders with
  buttons left in the document. The component is rendered with a message (and its effect
  runs), or the user clicks the button of an option of the question rendered last, or a
  button left from the earlier render number \<open>i\<close>. A click that changes the state makes the
  component render again with the same message.
\<close>

type_synonym instanceState = "chatMessage \<times> quizData option \<times> (quizData \<times> jsstring option) list"

datatype event = Render message | Click quizOption | LeftoverClick nat quizOption

fun step :: "bool \<Rightarrow> instanceState \<Rightarrow> event \<Rightarrow> instanceState" where
  "step onSendMessage (st, quiz, old) (Render m) =
     (afterRender (quizDataOf m) st, quizDataOf m, leftBehind quiz (quizDataOf m) st old)"
| "step onSendMessage (st, quiz, old) (Click opt) =
     (case quiz of
        None \<Rightarrow> (st, quiz, old)
      | Some q \<Rightarrow>
          (if opt \<in> set (options q)
           then (afterRender quiz (onClick onSendMessage q st opt), quiz, old)
           else (st, quiz, old)))"
| "step onSendMessage (st, quiz, old) (LeftoverClick i opt) =
     (if i < length old \<and> opt \<in> set (options (fst (old ! i)))
      then (afterRender quiz
              (leftoverClick onSendMessage (fst (old ! i)) (snd (old ! i)) st opt), quiz, old)
      else (st, quiz, old))"

definition run :: "bool \<Rightarrow> event list \<Rightarrow> instanceState" where
  "run onSendMessage evs = foldl (step onSendMessage) (mounted, None, []) evs"

text \<open>The buttons of a rendered message have keys of their own.\<close>

fun wellKeyed :: "event \<Rightarrow> bool" where
  "wellKeyed (Render m) =
     (case quizDataOf m of None \<Rightarrow> True | Some q \<Rightarrow> distinct (buttonKeys q))"
| "wellKeyed (Click opt) = True"
| "wellKeyed (LeftoverClick i opt) = True"

section \<open>The ChatWindow effect that detects an active quiz\<close>

text \<open>\<open>/[A-D]\.\ .+/.test(s)\<close>: the pattern at the start of \<open>s\<close>, then anywhere in \<open>s\<close>.\<close>

fun quizLineHere :: "jsstring \<Rightarrow> bool" where
  "quizLineHere (l # d # b # c # cs) = (isAD l \<and> d = 46 \<and> b = 32 \<and> \<not> isLineTerminator c)"
| "quizLineHere cs = False"

fun hasQuizLine :: "jsstring \<Rightarrow> bool" where
  "hasQuizLine [] = False"
| "hasQuizLine (c # cs) = (quizLineHere (c # cs) \<or> hasQuizLine cs)"

record chatWindow =
  isQuizActive :: bool
  showSuccess :: bool

definition hasQuizQuestion :: "jsstring \<Rightarrow> bool" where
  "hasQuizQuestion s =
     (hasQuizLine s \<and> (includesStr s (js ''Assessment'') \<or> includesStr s (js ''Question'')))"

definition isQuizComplete :: "jsstring \<Rightarrow> bool" where
  "isQuizComplete s = includesStr s (js ''Quiz Complete'')"

definition detectQuiz :: "message list \<Rightarrow> chatWindow \<Rightarrow> chatWindow" where
  "detectQuiz messages w =
     (if length messages > 0
      then (let lastMessage = last messages in
            if role lastMessage = ASSISTANT
            then (let w' = w\<lparr>isQuizActive :=
                         hasQuizQuestion (content lastMessage) \<and>
                         \<not> isQuizComplete (content lastMessage)\<rparr>
                  in if includesStr (content lastMessage) (CHECK # js '' Correct!'')
                     then w'\<lparr>showSuccess := True\<rparr> else w')
            else w)
      else w\<lparr>isQuizActive := False\<rparr>)"

text \<open>The stop control is rendered under \<open>isQuizActive &&\<close>.\<close>

definition stopShown :: "chatWindow \<Rightarrow> bool" where
  "stopShown w = isQuizActive w"

text \<open>
  The key that the message list gives to the component of a message: its id, its position
  and the first 50 code units of its content. Two messages with the same key are rendered
  by the same component instance.
\<close>

definition chatMessageKey :: "jsstring \<Rightarrow> message \<Rightarrow> jsstring" where
  "chatMessageKey index m = msgId m @ js ''-'' @ index @ js ''-'' @ take 50 (content m)"

section \<open>Loading the messages of a chat\<close>

text \<open>A message of the page state: \<open>loadMessages\<close> adds the key \<open>_renderKey\<close>.\<close>

record shownMessage = message +
  renderKey :: "jsstring option"

definition withKey :: "jsstring \<Rightarrow> message \<Rightarrow> shownMessage" where
  "withKey now m = message.extend m \<lparr>renderKey = Some (msgId m @ js ''-'' @ now)\<rparr>"

definition withoutKey :: "message \<Rightarrow> shownMessage" where
  "withoutKey m = message.extend m \<lparr>renderKey = None\<rparr>"

definition isProtocolMessage :: "jsstring \<Rightarrow> bool" where
  "isProtocolMessage c = startsWith c (js ''FEEDBACK:'')"

text \<open>
  \<open>loadMessages\<close>: \<open>chatMessages\<close> is what the server returned for the chat, and \<open>now i\<close>
  the text of \<open>Date.now()\<close> in the call of the \<open>map\<close> callback for the kept message number
  \<open>i\<close>; the result is the new \<open>messages\<close> state.
\<close>

definition loadMessages :: "(nat \<Rightarrow> jsstring) \<Rightarrow> message list \<Rightarrow> shownMessage list" where
  "loadMessages now chatMessages =
     map (\<lambda>(i, msg). withKey (now i) msg)
       (enumerate 0 (filter (\<lambda>msg. \<not> isProtocolMessage (content msg)) chatMessages))"

record sendResponse =
  user_message :: message
  bot_message :: message
  is_quiz_answer :: bool

text \<open>
  The two branches of \<open>handleSendMessage\<close> after the response: a quiz answer reloads the
  chat from the server, any other reply is appended to the state.
\<close>

definition handleSendMessage ::
  "(nat \<Rightarrow> jsstring) \<Rightarrow> message list \<Rightarrow> sendResponse \<Rightarrow> shownMessage list \<Rightarrow> shownMessage list" where
  "handleSendMessage now chatMessages response messages =
     (if isProtocolMessage (content (bot_message response)) \<or> is_quiz_answer response
      then loadMessages now chatMessages
      else messages @ [withoutKey (user_message response), withoutKey (bot_message response)])"

section \<open>Detection of a quiz message\<close>

text \<open>
  The scan of \<open>parseQuizQuestion\<close> is reached: the early \<open>return null\<close> under
  \<open>!hasOptions || isUser\<close> is not taken.
\<close>

definition detected :: "message \<Rightarrow> bool" where
  "detected m = (\<not> (\<not> hasOptions (content m) \<or> role m = USER))"

text \<open>
  The detection rule in the words of the specification, to be compared with \<open>detected\<close>:
  some line of the body matches the line-anchored pattern \<open>^[A-D]\.\s+.+\<close> and the role is
  \<open>assistant\<close>.
\<close>

definition specDetected :: "message \<Rightarrow> bool" where
  "specDetected m = (list_ex optionHere (split_nl (content m)) \<and> role m = ASSISTANT)"

section \<open>The lines that a scan skips\<close>

text \<open>
  A line sets the hidden letter when its trimmed text has a marker; it sets the feedback
  when it has no marker and has a feedback phrase. These are the first two branches of the
  loop body, both ending in \<open>continue\<close>.
\<close>

definition setsLetter :: "jsstring \<Rightarrow> bool" where
  "setsLetter line = (correctAnswerMatch (trim line) \<noteq> None)"

definition markerLetter :: "jsstring \<Rightarrow> jsstring" where
  "markerLetter line = (case correctAnswerMatch (trim line) of None \<Rightarrow> [] | Some c \<Rightarrow> [c])"

definition setsFeedback :: "jsstring \<Rightarrow> bool" where
  "setsFeedback line = (correctAnswerMatch (trim line) = None \<and> isFeedbackLine (trim line))"

text \<open>The marker text \<open>[CORRECT:l]\<close>, and a scan that has collected no marker.\<close>

definition marker :: "jschar \<Rightarrow> jsstring" where
  "marker l = js ''[CORRECT:'' @ [l, 93]"

definition clean :: "scan \<Rightarrow> bool" where
  "clean st =
     (list_all (\<lambda>l. correctAnswerMatch l = None) (questionLines st) \<and>
      list_all (\<lambda>x. correctAnswerMatch (letter x) = None \<and>
                     correctAnswerMatch (optionText x) = None) (scanOptions st))"

text \<open>Two scans with the same question lines, options and \<open>foundOptions\<close>.\<close>

definition sameOutput :: "scan \<Rightarrow> scan \<Rightarrow> bool" where
  "sameOutput st st' =
     (questionLines st = questionLines st' \<and> scanOptions st = scanOptions st' \<and>
      foundOptions st = foundOptions st')"

section \<open>Invariants of a component instance\<close>

text \<open>
  When every rendered question has buttons with keys of their own: the effect has run
  with the dependency of the question rendered last (or nothing was rendered yet); an
  answered question has no overlay; and the letters sent are exactly the recorded selection.
\<close>

definition settled :: "chatMessage \<times> quizData option \<Rightarrow> bool" where
  "settled c =
     (case c of (st, quiz) \<Rightarrow>
        (effectDep st = Some (isAnsweredDep quiz) \<or> (effectDep st = None \<and> quiz = None)) \<and>
        (isAnsweredDep quiz = Some True \<longrightarrow> instantFeedback st = None) \<and>
        sentMessages st = (case selectedAnswer st of None \<Rightarrow> [] | Some l \<Rightarrow> [l]))"

text \<open>
  In any state: every hidden letter that the instant feedback, the question or a left button
  carries is one letter or empty.
\<close>

definition shortLetters :: "instanceState \<Rightarrow> bool" where
  "shortLetters c =
     (case c of (st, quiz, old) \<Rightarrow>
        (case instantFeedback st of None \<Rightarrow> True | Some f \<Rightarrow> length (correctLetter f) \<le> 1) \<and>
        (case quiz of None \<Rightarrow> True | Some q \<Rightarrow> length (correctAnswerLetter q) \<le> 1) \<and>
        list_all (\<lambda>r. length (correctAnswerLetter (fst r)) \<le> 1) old)"

section \<open>Concrete messages and states\<close>

definition msg :: "role \<Rightarrow> jsstring \<Rightarrow> message" where
  "msg r c = \<lparr>msgId = js ''m1'', chatId = js ''c1'', role = r, content = c, timestamp = []\<rparr>"

definition body4 :: jsstring where
  "body4 = js ''What is 2+2?'' @ NL # js ''A. 3'' @ NL # js ''B. 4'' @ NL # js ''C. 5'' @ NL #
     js ''D. 6'' @ NL # js ''[CORRECT:B]''"

definition body3 :: jsstring where
  "body3 = js ''What is 2+2?'' @ NL # js ''A. 3'' @ NL # js ''B. 4'' @ NL # js ''C. 5''"

definition body5 :: jsstring where
  "body5 = js ''Pick one'' @ NL # js ''A. 3'' @ NL # js ''B. 4'' @ NL # js ''C. 5'' @ NL #
     js ''D. 6'' @ NL # js ''A. 7''"

definition quiz4 :: quizData where
  "quiz4 = \<lparr>question = js ''What is 2+2?'',
     options = [\<lparr>letter = js ''A'', optionText = js ''3'', status = Normal\<rparr>,
                \<lparr>letter = js ''B'', optionText = js ''4'', status = Normal\<rparr>,
                \<lparr>letter = js ''C'', optionText = js ''5'', status = Normal\<rparr>,
                \<lparr>letter = js ''D'', optionText = js ''6'', status = Normal\<rparr>],
     feedback = [], isAnswered = False, correctAnswerLetter = js ''B''\<rparr>"

definition lastRound :: jsstring where
  "lastRound = js ''Question 5'' @ NL # js ''A. yes'' @ NL # js ''Quiz Complete! You scored 4/5.''"

definition plainBody :: jsstring where
  "plainBody = js ''What is 2+2?'' @ NL # js ''A. 3'' @ NL # js ''B. 4'' @ NL # js ''C. 5'' @ NL #
     js ''D. 6''"

definition answeredBody :: jsstring where
  "answeredBody = js ''What is 2+2?'' @ NL # CROSS # js '' A. 3'' @ NL # CHECK # js '' B. 4'' @ NL #
     js ''C. 5'' @ NL # js ''D. 6'' @ NL # js ''[CORRECT:B]'' @ NL #
     CROSS # js '' Incorrect. The correct answer is B.''"

definition answeredQuiz :: quizData where
  "answeredQuiz = \<lparr>question = js ''What is 2+2?'',
     options = [\<lparr>letter = js ''A'', optionText = js ''3'', status = Incorrect\<rparr>,
                \<lparr>letter = js ''B'', optionText = js ''4'', status = Correct\<rparr>,
                \<lparr>letter = js ''C'', optionText = js ''5'', status = Normal\<rparr>,
                \<lparr>letter = js ''D'', optionText = js ''6'', status = Normal\<rparr>],
     feedback = CROSS # js '' Incorrect. The correct answer is B.'', isAnswered = True,
     correctAnswerLetter = js ''B''\<rparr>"

definition optionA :: quizOption where
  "optionA = \<lparr>letter = js ''A'', optionText = js ''3'', status = Normal\<rparr>"

definition optionB :: quizOption where
  "optionB = \<lparr>letter = js ''B'', optionText = js ''4'', status = Normal\<rparr>"

definition clickedA :: chatMessage where
  "clickedA = \<lparr>selectedAnswer = Some (js ''A''),
     instantFeedback = Some \<lparr>selectedLetter = js ''A'', isCorrect = False, correctLetter = js ''B''\<rparr>,
     sentMessages = [js ''A''], effectDep = Some (Some False)\<rparr>"

definition starredLine :: jsstring where
  "starredLine = js ''**'' @ CHECK # js '' Correct!**''"

definition starredBody :: jsstring where
  "starredBody = js ''What is 2+2?'' @ NL # js ''A. 3'' @ NL # CHECK # js '' B. 4'' @ NL #
     js ''C. 5'' @ NL # js ''D. 6'' @ NL # js ''[CORRECT:B]'' @ NL # starredLine"

definition starredQuiz :: quizData where
  "starredQuiz = \<lparr>question = js ''What is 2+2?'',
     options = [\<lparr>letter = js ''A'', optionText = js ''3'', status = Normal\<rparr>,
                \<lparr>letter = js ''B'', optionText = js ''4'', status = Correct\<rparr>,
                \<lparr>letter = js ''C'', optionText = js ''5'', status = Normal\<rparr>,
                \<lparr>letter = js ''D'', optionText = js ''6'', status = Normal\<rparr>],
     feedback = CHECK # js '' Correct!'', isAnswered = True, correctAnswerLetter = js ''B''\<rparr>"

definition taggedLine :: jsstring where
  "taggedLine = CHECK # js '' Correct! [CORRECT:B]''"

definition taggedBody :: jsstring where
  "taggedBody = js ''What is 2+2?'' @ NL # js ''A. 3'' @ NL # js ''B. 4'' @ NL #
     js ''C. 5'' @ NL # js ''D. 6'' @ NL # taggedLine"

definition leakBody :: jsstring where
  "leakBody = js ''What is 2+2?'' @ NL # js ''A. 3'' @ NL # js ''B. 4'' @ NL # js ''C. 5'' @ NL #
     js ''[CORRECT:B]''"

definition oddBody :: jsstring where
  "oddBody = js ''Which? [CORRECT:E]'' @ NL # js ''A. 3'' @ NL # js ''B. 4'' @ NL #
     js ''C. 5'' @ NL # js ''D. 6''"

definition oddQuiz :: quizData where
  "oddQuiz = \<lparr>question = js ''Which? [CORRECT:E]'',
     options = [\<lparr>letter = js ''A'', optionText = js ''3'', status = Normal\<rparr>,
                \<lparr>letter = js ''B'', optionText = js ''4'', status = Normal\<rparr>,
                \<lparr>letter = js ''C'', optionText = js ''5'', status = Normal\<rparr>,
                \<lparr>letter = js ''D'', optionText = js ''6'', status = Normal\<rparr>],
     feedback = [], isAnswered = False, correctAnswerLetter = []\<rparr>"

definition indentedBody :: jsstring where
  "indentedBody = js ''What is 2+2?'' @ NL # js ''  A. 3'' @ NL # js ''  B. 4'' @ NL #
     js ''  C. 5'' @ NL # js ''  D. 6'' @ NL # js ''[CORRECT:B]''"

definition starLeakLine :: jsstring where
  "starLeakLine = CHECK # js '' Correct! [CORR**ECT:B]''"

definition starLeakBody :: jsstring where
  "starLeakBody = js ''What is 2+2?'' @ NL # js ''A. 3'' @ NL # CHECK # js '' B. 4'' @ NL #
     js ''C. 5'' @ NL # js ''D. 6'' @ NL # js ''[CORRECT:B]'' @ NL # starLeakLine"

definition starLeakQuiz :: quizData where
  "starLeakQuiz = \<lparr>question = js ''What is 2+2?'',
     options = [\<lparr>letter = js ''A'', optionText = js ''3'', status = Normal\<rparr>,
                \<lparr>letter = js ''B'', optionText = js ''4'', status = Correct\<rparr>,
                \<lparr>letter = js ''C'', optionText = js ''5'', status = Normal\<rparr>,
                \<lparr>letter = js ''D'', optionText = js ''6'', status = Normal\<rparr>],
     feedback = CHECK # js '' Correct! [CORRECT:B]'', isAnswered = True,
     correctAnswerLetter = js ''B''\<rparr>"

definition longQuestion :: jsstring where
  "longQuestion = js ''Which of these cities is the capital city of France today?''"

definition repeatedBody :: jsstring where
  "repeatedBody = longQuestion @ NL # js ''B. Paris'' @ NL # js ''B. Lyon'' @ NL #
     js ''B. Nice'' @ NL # js ''B. Lille'' @ NL # js ''[CORRECT:B]''"

definition letteredBody :: jsstring where
  "letteredBody = longQuestion @ NL # js ''A. Lyon'' @ NL # js ''B. Paris'' @ NL #
     js ''C. Nice'' @ NL # js ''D. Lille'' @ NL # js ''[CORRECT:B]''"

definition letteredAnswered :: jsstring where
  "letteredAnswered = longQuestion @ NL # js ''A. Lyon'' @ NL # CHECK # js '' B. Paris'' @ NL #
     js ''C. Nice'' @ NL # js ''D. Lille'' @ NL # js ''[CORRECT:B]'' @ NL # CHECK # js '' Correct!''"

definition bParis :: quizOption where
  "bParis = \<lparr>letter = js ''B'', optionText = js ''Paris'', status = Normal\<rparr>"

definition bLyon :: quizOption where
  "bLyon = \<lparr>letter = js ''B'', optionText = js ''Lyon'', status = Normal\<rparr>"

definition bNice :: quizOption where
  "bNice = \<lparr>letter = js ''B'', optionText = js ''Nice'', status = Normal\<rparr>"

definition bLille :: quizOption where
  "bLille = \<lparr>letter = js ''B'', optionText = js ''Lille'', status = Normal\<rparr>"

definition repeatedQuiz :: quizData where
  "repeatedQuiz = \<lparr>question = longQuestion, options = [bParis, bLyon, bNice, bLille],
     feedback = [], isAnswered = False, correctAnswerLetter = js ''B''\<rparr>"

definition letteredQuiz :: quizData where
  "letteredQuiz = \<lparr>question = longQuestion,
     options = [\<lparr>letter = js ''A'', optionText = js ''Lyon'', status = Normal\<rparr>,
                bParis,
                \<lparr>letter = js ''C'', optionText = js ''Nice'', status = Normal\<rparr>,
                \<lparr>letter = js ''D'', optionText = js ''Lille'', status = Normal\<rparr>],
     feedback = [], isAnswered = False, correctAnswerLetter = js ''B''\<rparr>"

definition letteredAnsweredQuiz :: quizData where
  "letteredAnsweredQuiz = \<lparr>question = longQuestion,
     options = [\<lparr>letter = js ''A'', optionText = js ''Lyon'', status = Normal\<rparr>,
                \<lparr>letter = js ''B'', optionText = js ''Paris'', status = Correct\<rparr>,
                \<lparr>letter = js ''C'', optionText = js ''Nice'', status = Normal\<rparr>,
                \<lparr>letter = js ''D'', optionText = js ''Lille'', status = Normal\<rparr>],
     feedback = CHECK # js '' Correct!'', isAnswered = True, correctAnswerLetter = js ''B''\<rparr>"

definition pickedB :: instant where
  "pickedB = \<lparr>selectedLetter = js ''B'', isCorrect = True, correctLetter = js ''B''\<rparr>"

section \<open>Evaluation on the concrete messages\<close>

lemmas eval_defs = js_def NL_def CHECK_def CROSS_def isAD_def isWhiteSpace_def
  isLineTerminator_def trim_def includesStr_def startsWith_def sublist_code(3) dotPlusEnd_def
  normalMatch_def markerHere_def scanStart_def pushOption_def pushQuestion_def orElse_def
  matchOption_def isFeedbackLine_def isFooterLine_def scanLine_def scanLines_def
  toQuizData_def parseQuizQuestion_def

lemma parse_body4: "parseQuizQuestion False body4 = Some quiz4"
  by (simp add: body4_def quiz4_def eval_defs)

lemma scan_body3: "length (scanOptions (scanLines scanStart (split_nl body3))) = 3"
  by (simp add: body3_def eval_defs)

lemma scan_body5: "length (scanOptions (scanLines scanStart (split_nl body5))) = 5"
  by (simp add: body5_def eval_defs)

lemma parse_answeredBody: "parseQuizQuestion False answeredBody = Some answeredQuiz"
  by (simp add: answeredBody_def answeredQuiz_def eval_defs)

lemma parse_plainBody: "parseQuizQuestion False plainBody = Some (quiz4\<lparr>correctAnswerLetter := []\<rparr>)"
  by (simp add: plainBody_def quiz4_def eval_defs)

lemma parse_starredBody: "parseQuizQuestion False starredBody = Some starredQuiz"
  by (simp add: starredBody_def starredLine_def starredQuiz_def eval_defs)

lemma parse_taggedBody: "parseQuizQuestion False taggedBody = Some quiz4"
  by (simp add: taggedBody_def taggedLine_def quiz4_def eval_defs)

lemma parse_oddBody: "parseQuizQuestion False oddBody = Some oddQuiz"
  by (simp add: oddBody_def oddQuiz_def eval_defs)

lemma parse_leakBody: "parseQuizQuestion False leakBody = None"
  by (simp add: leakBody_def eval_defs)

lemma parse_indentedBody: "parseQuizQuestion False indentedBody = Some quiz4"
  by (simp add: indentedBody_def quiz4_def eval_defs)

lemma parse_starLeakBody: "parseQuizQuestion False starLeakBody = Some starLeakQuiz"
  by (simp add: starLeakBody_def starLeakLine_def starLeakQuiz_def eval_defs)

lemma quiz_repeatedBody: "quizDataOf (msg ASSISTANT repeatedBody) = Some repeatedQuiz"
  by (simp add: quizDataOf_def msg_def repeatedBody_def longQuestion_def repeatedQuiz_def
      bParis_def bLyon_def bNice_def bLille_def eval_defs)

lemma quiz_letteredBody: "quizDataOf (msg ASSISTANT letteredBody) = Some letteredQuiz"
  by (simp add: quizDataOf_def msg_def letteredBody_def longQuestion_def letteredQuiz_def
      bParis_def eval_defs)

lemma quiz_letteredAnswered:
  "quizDataOf (msg ASSISTANT letteredAnswered) = Some letteredAnsweredQuiz"
  by (simp add: quizDataOf_def msg_def letteredAnswered_def longQuestion_def
      letteredAnsweredQuiz_def eval_defs)

lemma keys_repeated: "buttonKeys repeatedQuiz = [js ''B'', js ''B'', js ''B'', js ''B'']"
  by (simp add: buttonKeys_def repeatedQuiz_def bParis_def bLyon_def bNice_def bLille_def)

lemma keys_lettered:
  "buttonKeys letteredQuiz = [js ''A'', js ''B'', js ''C'', js ''D'']"
  "buttonKeys letteredAnsweredQuiz = [js ''A'', js ''B'', js ''C'', js ''D'']"
  by (simp_all add: buttonKeys_def letteredQuiz_def letteredAnsweredQuiz_def bParis_def)

lemma quiz_facts:
  "isAnswered repeatedQuiz = False" "isAnswered letteredQuiz = False"
  "isAnswered letteredAnsweredQuiz = True"
  "correctAnswerLetter repeatedQuiz = js ''B''" "correctAnswerLetter letteredQuiz = js ''B''"
  "options repeatedQuiz = [bParis, bLyon, bNice, bLille]"
  "bParis \<in> set (options letteredQuiz)"
  "letter bParis = js ''B''" "letter bLyon = js ''B''" "letter bNice = js ''B''"
  "js ''B'' \<noteq> []"
  by (simp_all add: repeatedQuiz_def letteredQuiz_def letteredAnsweredQuiz_def bParis_def
      bLyon_def bNice_def js_def)

lemma keys_differ: "\<not> distinct (buttonKeys repeatedQuiz)"
  "buttonKeys repeatedQuiz \<noteq> buttonKeys letteredQuiz"
  "buttonKeys repeatedQuiz \<noteq> buttonKeys letteredAnsweredQuiz"
  "distinct (buttonKeys letteredQuiz)" "distinct (buttonKeys letteredAnsweredQuiz)"
  by (simp_all add: keys_repeated keys_lettered js_def)

lemma same_instance:
  "chatMessageKey i (msg ASSISTANT repeatedBody) = chatMessageKey i (msg ASSISTANT letteredBody)"
  "chatMessageKey i (msg ASSISTANT repeatedBody) = chatMessageKey i (msg ASSISTANT letteredAnswered)"
  by (simp_all add: chatMessageKey_def msg_def repeatedBody_def letteredBody_def
      letteredAnswered_def longQuestion_def js_def)

lemmas life_defs = afterRender_def resetEffect_def isAnsweredDep_def leftBehind_def
  onClick_def buttonDisabled_def handleOptionClick_def leftoverClick_def truthy_def mounted_def

section \<open>The line scan\<close>

lemma scanLines_Nil: "scanLines st [] = st"
  by (simp add: scanLines_def)

lemma scanLines_Cons: "scanLines st (l # ls) = scanLines (scanLine st l) ls"
  by (simp add: scanLines_def)

lemma scanLines_snoc: "scanLines st (ls @ [l]) = scanLine (scanLines st ls) l"
  by (simp add: scanLines_def)

lemma scanLine_keeps_letter:
  "correctAnswerMatch (trim l) = None \<Longrightarrow> scanCorrectLetter (scanLine st l) = scanCorrectLetter st"
  by (simp add: scanLine_def matchOption_def pushOption_def pushQuestion_def Let_def
      split: option.splits)

lemma scanLines_keeps_letter:
  "\<forall>l \<in> set ls. correctAnswerMatch (trim l) = None \<Longrightarrow>
   scanCorrectLetter (scanLines st ls) = scanCorrectLetter st"
  by (induction ls arbitrary: st) (simp_all add: scanLines_Nil scanLines_Cons scanLine_keeps_letter)

lemma scanLine_letter:
  "scanCorrectLetter (scanLine st l) =
     (if setsLetter l then markerLetter l else scanCorrectLetter st)"
  by (auto simp: scanLine_def Let_def matchOption_def pushOption_def setsLetter_def
      markerLetter_def pushQuestion_def split: option.splits)

lemma scanLines_letter:
  "scanCorrectLetter (scanLines st ls) =
     (if filter setsLetter ls = [] then scanCorrectLetter st
      else markerLetter (last (filter setsLetter ls)))"
proof (induction ls rule: rev_induct)
  case Nil
  then show ?case by (simp add: scanLines_Nil)
next
  case (snoc l ls)
  then show ?case
    by (simp add: scanLines_snoc scanLine_letter)
qed

lemma scanLine_feedback:
  "scanIsAnswered (scanLine st l) = (scanIsAnswered st \<or> setsFeedback l) \<and>
   feedbackMessage (scanLine st l) =
     (if setsFeedback l then removeStars (trim l) else feedbackMessage st)"
  by (auto simp: scanLine_def Let_def setsFeedback_def matchOption_def pushOption_def
      pushQuestion_def split: option.splits)

lemma scanLines_feedback:
  "scanIsAnswered (scanLines st ls) = (scanIsAnswered st \<or> filter setsFeedback ls \<noteq> []) \<and>
   feedbackMessage (scanLines st ls) =
     (if filter setsFeedback ls = [] then feedbackMessage st
      else removeStars (trim (last (filter setsFeedback ls))))"
proof (induction ls rule: rev_induct)
  case Nil
  then show ?case by (simp add: scanLines_Nil)
next
  case (snoc l ls)
  then show ?case
    by (simp add: scanLines_snoc scanLine_feedback)
qed

subsection \<open>Skipped lines leave the question and the options alone\<close>

lemma sameOutput_refl: "sameOutput st st"
  by (simp add: sameOutput_def)

lemma pushOption_same: "sameOutput st st' \<Longrightarrow> sameOutput (pushOption st m s) (pushOption st' m s)"
  by (simp add: sameOutput_def pushOption_def)

lemma pushQuestion_same:
  "sameOutput st st' \<Longrightarrow> sameOutput (pushQuestion st t l) (pushQuestion st' t l)"
  by (simp add: sameOutput_def pushQuestion_def)

lemma matchOption_same:
  "sameOutput st st' \<Longrightarrow> sameOutput (matchOption st t l) (matchOption st' t l)"
  by (simp add: matchOption_def pushOption_same pushQuestion_same split: option.splits)

lemma scanLine_same:
  "sameOutput st st' \<Longrightarrow> sameOutput (scanLine st l) (scanLine st' l)"
  by (auto simp: scanLine_def Let_def matchOption_same split: option.splits)
     (simp_all add: sameOutput_def)

lemma scanLine_skipped:
  "setsLetter l \<or> setsFeedback l \<Longrightarrow> sameOutput (scanLine st l) st"
  by (auto simp: scanLine_def Let_def setsLetter_def setsFeedback_def sameOutput_def
      split: option.splits)

lemma scanLines_filter_same:
  assumes "\<forall>l \<in> set ls. \<not> keep l \<longrightarrow> setsLetter l \<or> setsFeedback l"
    and "sameOutput st st'"
  shows "sameOutput (scanLines st ls) (scanLines st' (filter keep ls))"
  using assms
proof (induction ls arbitrary: st st')
  case Nil
  then show ?case by (simp add: scanLines_Nil)
next
  case (Cons l ls)
  show ?case
  proof (cases "keep l")
    case True
    from Cons.prems(2) have "sameOutput (scanLine st l) (scanLine st' l)"
      by (rule scanLine_same)
    with Cons.IH [of "scanLine st l" "scanLine st' l"] Cons.prems(1) True
    show ?thesis by (simp add: scanLines_Cons)
  next
    case False
    with Cons.prems(1) have "setsLetter l \<or> setsFeedback l" by simp
    then have "sameOutput (scanLine st l) st" by (rule scanLine_skipped)
    with Cons.prems(2) have "sameOutput (scanLine st l) st'" by (simp add: sameOutput_def)
    with Cons.IH [of "scanLine st l" st'] Cons.prems(1) False
    show ?thesis by (simp add: scanLines_Cons)
  qed
qed

subsection \<open>The option patterns\<close>

lemma trim_id:
  assumes "s \<noteq> []" and "\<not> isWhiteSpace (hd s)" and "\<not> isWhiteSpace (last s)"
  shows "trim s = s"
proof -
  from assms(1,2) have a: "dropWhile isWhiteSpace s = s"
    by (cases s) simp_all
  from assms(1,3) have "rev s \<noteq> []" and "\<not> isWhiteSpace (hd (rev s))"
    by (simp_all add: hd_rev)
  then have "dropWhile isWhiteSpace (rev s) = rev s"
    by (cases "rev s") simp_all
  with a show ?thesis by (simp add: trim_def)
qed

lemma spacesText_none: "s = [] \<or> \<not> isWhiteSpace (hd s) \<Longrightarrow> spacesText s = None"
  by (cases s) auto

lemma spacesText_run:
  assumes "ws \<noteq> []" and "\<forall>w \<in> set ws. isWhiteSpace w"
    and "t \<noteq> []" and "\<not> isWhiteSpace (hd t)" and "\<forall>c \<in> set t. \<not> isLineTerminator c"
  shows "spacesText (ws @ t) = Some t"
  using assms(1,2)
proof (induction ws)
  case Nil
  then show ?case by simp
next
  case (Cons w ws)
  show ?case
  proof (cases "ws = []")
    case True
    with Cons.prems assms(3,4,5) show ?thesis
      by (simp add: spacesText_none dotPlusEnd_def)
  next
    case False
    with Cons show ?thesis by simp
  qed
qed

lemma isAD_not_space: "isAD c \<Longrightarrow> \<not> isWhiteSpace c"
  by (auto simp: isAD_def isWhiteSpace_def)

lemma spacesLetterDotText_run:
  assumes "\<forall>w \<in> set ws0. isWhiteSpace w"
    and "isAD L" and "ws \<noteq> []" and "\<forall>w \<in> set ws. isWhiteSpace w"
    and "t \<noteq> []" and "\<not> isWhiteSpace (hd t)" and "\<forall>c \<in> set t. \<not> isLineTerminator c"
  shows "spacesLetterDotText (ws0 @ L # 46 # ws @ t) = Some (L, t)"
  using assms(1)
proof (induction ws0)
  case Nil
  have "spacesLetterDotText (L # 46 # ws @ t) = letterDotText (L # 46 # ws @ t)"
    using assms(2) by (simp add: isAD_not_space del: letterDotText.simps)
  with assms show ?case by (simp add: spacesText_run)
next
  case (Cons w ws0)
  then show ?case by simp
qed

lemma letterDotText_first:
  "letterDotText s = Some m \<Longrightarrow> s \<noteq> [] \<and> isAD (hd s)"
  by (cases s rule: letterDotText.cases) (auto split: if_splits)

lemma normal_not_marked:
  assumes "normalMatch s = Some m"
  shows "\<not> startsWith s [CHECK] \<and> \<not> startsWith s [CROSS]"
proof -
  from assms have "s \<noteq> [] \<and> isAD (hd s)"
    by (simp add: normalMatch_def letterDotText_first)
  then show ?thesis
    by (cases s) (auto simp: startsWith_def isAD_def CHECK_def CROSS_def)
qed

lemma spacesText_suffix: "spacesText s = Some g \<Longrightarrow> suffix g s"
proof (induction s)
  case Nil
  then show ?case by simp
next
  case (Cons c cs)
  show ?case
  proof (cases "spacesText cs")
    case None
    with Cons.prems have "g = cs"
      by (simp add: dotPlusEnd_def split: if_splits)
    then show ?thesis by (simp add: suffix_Cons)
  next
    case (Some h)
    with Cons.prems have "g = h" by (simp split: if_splits)
    with Some Cons.IH show ?thesis by (simp add: suffix_Cons)
  qed
qed

lemma letterDotText_suffix: "letterDotText s = Some m \<Longrightarrow> suffix (snd m) s"
proof (cases s rule: letterDotText.cases)
  case (1 l d cs)
  assume "letterDotText s = Some m"
  with 1 obtain g where "spacesText cs = Some g" and "snd m = g"
    by (auto split: if_splits option.splits)
  with 1 spacesText_suffix [of cs g] show ?thesis by (simp add: suffix_Cons)
qed simp_all

lemma spacesLetterDotText_suffix: "spacesLetterDotText s = Some m \<Longrightarrow> suffix (snd m) s"
proof (induction s)
  case Nil
  then show ?case by simp
next
  case (Cons c cs)
  show ?case
  proof (cases "isWhiteSpace c \<and> spacesLetterDotText cs \<noteq> None")
    case True
    with Cons.prems have "spacesLetterDotText cs = Some m" by auto
    with Cons.IH show ?thesis by (simp add: suffix_Cons)
  next
    case False
    with Cons.prems have "letterDotText (c # cs) = Some m"
      by (auto simp del: letterDotText.simps split: if_splits option.splits)
    then show ?thesis by (rule letterDotText_suffix)
  qed
qed

lemma markedMatch_suffix: "markedMatch k s = Some m \<Longrightarrow> suffix (snd m) s"
  by (cases s) (auto simp: suffix_Cons dest: spacesLetterDotText_suffix split: if_splits)

subsection \<open>The option test of the parser\<close>

lemma spacesDot_iff:
  "spacesDot s \<longleftrightarrow>
     (\<exists>ws d ss. s = ws @ d # ss \<and> ws \<noteq> [] \<and> (\<forall>w \<in> set ws. isWhiteSpace w) \<and>
        \<not> isLineTerminator d)"
proof (induction s)
  case Nil
  then show ?case by simp
next
  case (Cons c cs)
  show ?case
  proof
    assume h: "spacesDot (c # cs)"
    then have c: "isWhiteSpace c" by simp
    show "\<exists>ws d ss. c # cs = ws @ d # ss \<and> ws \<noteq> [] \<and> (\<forall>w \<in> set ws. isWhiteSpace w) \<and>
        \<not> isLineTerminator d"
    proof (cases "spacesDot cs")
      case True
      with Cons.IH obtain ws d ss where "cs = ws @ d # ss" "\<forall>w \<in> set ws. isWhiteSpace w"
        "\<not> isLineTerminator d" by blast
      with c have "c # cs = (c # ws) @ d # ss \<and> c # ws \<noteq> [] \<and>
        (\<forall>w \<in> set (c # ws). isWhiteSpace w) \<and> \<not> isLineTerminator d" by simp
      then show ?thesis by blast
    next
      case False
      with h obtain d ss where "cs = d # ss" "\<not> isLineTerminator d"
        by (auto split: list.splits)
      with c have "c # cs = [c] @ d # ss \<and> [c] \<noteq> [] \<and>
        (\<forall>w \<in> set [c]. isWhiteSpace w) \<and> \<not> isLineTerminator d" by simp
      then show ?thesis by blast
    qed
  next
    assume "\<exists>ws d ss. c # cs = ws @ d # ss \<and> ws \<noteq> [] \<and> (\<forall>w \<in> set ws. isWhiteSpace w) \<and>
        \<not> isLineTerminator d"
    then obtain ws d ss where e: "c # cs = ws @ d # ss" and n: "ws \<noteq> []"
      and w: "\<forall>w \<in> set ws. isWhiteSpace w" and d: "\<not> isLineTerminator d" by blast
    from n obtain v vs where v: "ws = v # vs" by (cases ws) auto
    with e have cv: "c = v" "cs = vs @ d # ss" by simp_all
    show "spacesDot (c # cs)"
    proof (cases vs)
      case Nil
      with cv v w d show ?thesis by simp
    next
      case (Cons a as)
      with cv v w d have "\<exists>ws d ss. cs = ws @ d # ss \<and> ws \<noteq> [] \<and>
        (\<forall>w \<in> set ws. isWhiteSpace w) \<and> \<not> isLineTerminator d"
        by (intro exI [of _ vs] exI [of _ d] exI [of _ ss]) simp
      with Cons.IH have "spacesDot cs" by simp
      with cv v w show ?thesis by simp
    qed
  qed
qed

lemma optionHere_iff:
  "optionHere s \<longleftrightarrow>
     (\<exists>l ws d ss. s = l # 46 # ws @ d # ss \<and> isAD l \<and> ws \<noteq> [] \<and>
        (\<forall>w \<in> set ws. isWhiteSpace w) \<and> \<not> isLineTerminator d)"
proof (cases s rule: optionHere.cases)
  case (1 l d cs)
  then show ?thesis by (auto simp: spacesDot_iff)
qed simp_all

lemma hasOptions_iff:
  "hasOptions s \<longleftrightarrow>
     (\<exists>ps l ws d ss. s = ps @ l # 46 # ws @ d # ss \<and> isAD l \<and> ws \<noteq> [] \<and>
        (\<forall>w \<in> set ws. isWhiteSpace w) \<and> \<not> isLineTerminator d)"
proof (induction s)
  case Nil
  then show ?case by simp
next
  case (Cons c cs)
  let ?P = "\<lambda>s ps l ws d ss. s = ps @ l # 46 # ws @ d # ss \<and> isAD l \<and> ws \<noteq> [] \<and>
        (\<forall>w \<in> set ws. isWhiteSpace w) \<and> \<not> isLineTerminator d"
  show ?case
  proof
    assume "hasOptions (c # cs)"
    then have "optionHere (c # cs) \<or> hasOptions cs" by simp
    then show "\<exists>ps l ws d ss. ?P (c # cs) ps l ws d ss"
    proof
      assume "optionHere (c # cs)"
      then obtain l ws d ss where "?P (c # cs) [] l ws d ss"
        unfolding optionHere_iff by auto
      then show ?thesis by blast
    next
      assume "hasOptions cs"
      with Cons.IH obtain ps l ws d ss where "?P cs ps l ws d ss" by blast
      then have "?P (c # cs) (c # ps) l ws d ss" by simp
      then show ?thesis by blast
    qed
  next
    assume "\<exists>ps l ws d ss. ?P (c # cs) ps l ws d ss"
    then obtain ps l ws d ss where p: "?P (c # cs) ps l ws d ss" by blast
    show "hasOptions (c # cs)"
    proof (cases ps)
      case Nil
      with p have "optionHere (c # cs)" unfolding optionHere_iff by auto
      then show ?thesis by simp
    next
      case (Cons a as)
      with p have "?P cs as l ws d ss" by simp
      then have "\<exists>ps l ws d ss. ?P cs ps l ws d ss" by blast
      with Cons.IH have "hasOptions cs" by simp
      then show ?thesis by simp
    qed
  qed
qed

subsection \<open>Markers as substrings\<close>

lemma marker_facts:
  "marker l \<noteq> []" "length (marker l) = 11" "hd (marker l) = 91" "last (marker l) = 93"
  "isAD l \<Longrightarrow> NL \<notin> set (marker l)"
  by (auto simp: marker_def js_def NL_def isAD_def)

lemma markerHere_iff: "markerHere s = Some l \<longleftrightarrow> isAD l \<and> prefix (marker l) s"
proof
  assume h: "markerHere s = Some l"
  then have p: "prefix (js ''[CORRECT:'') s"
    by (simp add: markerHere_def startsWith_def split: if_splits)
  then obtain r where s: "s = js ''[CORRECT:'' @ r" by (auto simp: prefix_def)
  have "length (js ''[CORRECT:'') = 9" by (simp add: js_def)
  with s have d: "drop 9 s = r" by simp
  from h p d obtain r' where "r = l # 93 # r'" and "isAD l"
    by (auto simp: markerHere_def startsWith_def split: if_splits list.splits)
  with s show "isAD l \<and> prefix (marker l) s"
    by (simp add: marker_def prefix_def)
next
  assume h: "isAD l \<and> prefix (marker l) s"
  then obtain r where s: "s = js ''[CORRECT:'' @ l # 93 # r"
    by (auto simp: prefix_def marker_def)
  have "length (js ''[CORRECT:'') = 9" by (simp add: js_def)
  with s have d: "drop 9 s = l # 93 # r" by simp
  from s have "prefix (js ''[CORRECT:'') s" by simp
  with d h show "markerHere s = Some l"
    by (simp add: markerHere_def startsWith_def)
qed

lemma markerHere_None_iff: "markerHere s = None \<longleftrightarrow> (\<forall>l. isAD l \<longrightarrow> \<not> prefix (marker l) s)"
proof -
  have "markerHere s = None \<longleftrightarrow> (\<forall>l. markerHere s \<noteq> Some l)" by auto
  then show ?thesis by (simp add: markerHere_iff)
qed

lemma noMarker_iff:
  "correctAnswerMatch s = None \<longleftrightarrow> (\<forall>l. isAD l \<longrightarrow> \<not> sublist (marker l) s)"
proof (induction s)
  case Nil
  then show ?case by (simp add: marker_facts)
next
  case (Cons c cs)
  have "correctAnswerMatch (c # cs) = None \<longleftrightarrow>
      markerHere (c # cs) = None \<and> correctAnswerMatch cs = None"
    by (simp split: option.splits)
  with Cons show ?case
    by (auto simp: markerHere_None_iff sublist_Cons_right)
qed

lemma noMarker_sublist:
  "sublist t s \<Longrightarrow> correctAnswerMatch s = None \<Longrightarrow> correctAnswerMatch t = None"
  unfolding noMarker_iff using sublist_order.order.trans by blast

lemma noMarker_short: "length s < 11 \<Longrightarrow> correctAnswerMatch s = None"
  unfolding noMarker_iff
proof (intro allI impI notI)
  fix l
  assume "length s < 11" and "sublist (marker l) s"
  then show False using sublist_length_le [of "marker l" s] by (simp add: marker_facts)
qed

lemma noMarker_single: "correctAnswerMatch [c] = None"
  by (rule noMarker_short) simp

lemma sublist_trans: "sublist a b \<Longrightarrow> sublist b c \<Longrightarrow> sublist a c"
  by (rule sublist_order.order.trans)

lemma sublist_dropWhile:
  "sublist m s \<Longrightarrow> m \<noteq> [] \<Longrightarrow> \<not> P (hd m) \<Longrightarrow> sublist m (dropWhile P s)"
proof (induction s)
  case Nil
  then show ?case by simp
next
  case (Cons c cs)
  show ?case
  proof (cases "P c")
    case True
    from Cons.prems(1) have "prefix m (c # cs) \<or> sublist m cs"
      by (simp add: sublist_Cons_right)
    moreover have "\<not> prefix m (c # cs)"
    proof
      assume "prefix m (c # cs)"
      with Cons.prems(2) have "hd m = c" by (cases m) simp_all
      with True Cons.prems(3) show False by simp
    qed
    ultimately have "sublist m cs" by simp
    with Cons True show ?thesis by simp
  next
    case False
    with Cons.prems(1) show ?thesis by simp
  qed
qed

lemma sublist_trim:
  assumes "sublist m s" and "m \<noteq> []" and "\<not> isWhiteSpace (hd m)" and "\<not> isWhiteSpace (last m)"
  shows "sublist m (trim s)"
proof -
  from assms(1,2,3) have "sublist m (dropWhile isWhiteSpace s)"
    by (rule sublist_dropWhile)
  then have "sublist (rev m) (rev (dropWhile isWhiteSpace s))"
    by (simp add: sublist_rev)
  moreover from assms(2,4) have "rev m \<noteq> []" "\<not> isWhiteSpace (hd (rev m))"
    by (simp_all add: hd_rev)
  ultimately have "sublist (rev m) (dropWhile isWhiteSpace (rev (dropWhile isWhiteSpace s)))"
    by (rule sublist_dropWhile)
  then have "sublist (rev (rev m)) (rev (dropWhile isWhiteSpace (rev (dropWhile isWhiteSpace s))))"
    by (simp only: sublist_rev)
  then show ?thesis by (simp add: trim_def)
qed

lemma noMarker_untrim:
  assumes "correctAnswerMatch (trim s) = None"
  shows "correctAnswerMatch s = None"
  unfolding noMarker_iff
proof (intro allI impI notI)
  fix l
  assume "isAD l" and "sublist (marker l) s"
  then have "sublist (marker l) (trim s)"
    by (intro sublist_trim) (simp_all add: marker_facts isWhiteSpace_def)
  with assms \<open>isAD l\<close> show False by (simp add: noMarker_iff)
qed

lemma trim_sublist: "sublist (trim s) s"
proof -
  let ?d = "dropWhile isWhiteSpace s"
  have "trim s @ rev (takeWhile isWhiteSpace (rev ?d)) =
      rev (takeWhile isWhiteSpace (rev ?d) @ dropWhile isWhiteSpace (rev ?d))"
    by (simp only: trim_def rev_append)
  also have "\<dots> = ?d"
    by (simp only: takeWhile_dropWhile_id rev_rev_ident)
  finally have "prefix (trim s) ?d" by (metis prefixI)
  then have "sublist (trim s) ?d" by (rule prefix_imp_sublist)
  moreover have "sublist ?d s" by (simp add: suffix_dropWhile suffix_imp_sublist)
  ultimately show ?thesis by (rule sublist_order.order.trans)
qed

lemma noMarker_join:
  "\<forall>l \<in> set ls. correctAnswerMatch l = None \<Longrightarrow> correctAnswerMatch (join_nl ls) = None"
proof (induction ls rule: join_nl.induct)
  case 1
  then show ?case by simp
next
  case (2 l)
  then show ?case by simp
next
  case (3 l k ls)
  then have r: "correctAnswerMatch (join_nl (k # ls)) = None" and l: "correctAnswerMatch l = None"
    by simp_all
  show ?case
    unfolding noMarker_iff
  proof (intro allI impI notI)
    fix c
    assume c: "isAD c" and "sublist (marker c) (join_nl (l # k # ls))"
    then have "sublist (marker c) (l @ NL # join_nl (k # ls))" by simp
    then consider "sublist (marker c) l" | "sublist (marker c) (NL # join_nl (k # ls))"
      | m1 m2 where "marker c = m1 @ m2" "suffix m1 l" "prefix m2 (NL # join_nl (k # ls))"
      by (auto simp: sublist_append)
    then show False
    proof cases
      case 1
      with l c show False by (simp add: noMarker_iff)
    next
      case 2
      then have "prefix (marker c) (NL # join_nl (k # ls)) \<or> sublist (marker c) (join_nl (k # ls))"
        by (simp add: sublist_Cons_right)
      moreover have "\<not> prefix (marker c) (NL # join_nl (k # ls))"
        by (simp add: marker_def js_def NL_def)
      ultimately show False using r c by (simp add: noMarker_iff)
    next
      case 3
      show False
      proof (cases m2)
        case Nil
        with 3 have "suffix (marker c) l" by simp
        then have "sublist (marker c) l" by (rule suffix_imp_sublist)
        with l c show False by (simp add: noMarker_iff)
      next
        case (Cons x xs)
        with 3(3) have "x = NL" by simp
        with Cons 3(1) have "NL \<in> set (marker c)" by simp
        with c show False by (simp add: marker_facts)
      qed
    qed
  qed
qed

subsection \<open>A scan collects no marker\<close>

lemma pushQuestion_clean:
  "clean st \<Longrightarrow> correctAnswerMatch l = None \<Longrightarrow> clean (pushQuestion st t l)"
  by (simp add: clean_def pushQuestion_def del: correctAnswerMatch.simps)

lemma orElse_suffix:
  assumes "orElse (markedMatch k t) (markedMatch k l) = Some m" and "sublist t l"
  shows "sublist (snd m) l"
proof (cases "markedMatch k t")
  case None
  with assms(1) have "markedMatch k l = Some m" by (simp add: orElse_def)
  then show ?thesis by (simp add: markedMatch_suffix suffix_imp_sublist)
next
  case (Some a)
  with assms(1) have "markedMatch k t = Some m" by (simp add: orElse_def)
  then have "sublist (snd m) t" by (simp add: markedMatch_suffix suffix_imp_sublist)
  then show ?thesis using assms(2) by (rule sublist_trans)
qed

lemma pushOption_clean':
  assumes "clean st" and "sublist (snd m) l" and "correctAnswerMatch l = None"
  shows "clean (pushOption st m k)"
proof -
  from trim_sublist [of "snd m"] assms(2) have "sublist (trim (snd m)) l"
    by (rule sublist_trans)
  then have "correctAnswerMatch (trim (snd m)) = None" using assms(3) by (rule noMarker_sublist)
  with assms(1) show ?thesis
    by (simp add: clean_def pushOption_def noMarker_single del: correctAnswerMatch.simps)
qed

lemma matchOption_clean:
  assumes "clean st" and "correctAnswerMatch l = None"
  shows "clean (matchOption st (trim l) l)"
proof -
  have t: "sublist (trim l) l" by (rule trim_sublist)
  show ?thesis
  proof (cases "orElse (markedMatch CHECK (trim l)) (markedMatch CHECK l)")
    case (Some m)
    with t have "sublist (snd m) l" by (simp add: orElse_suffix)
    with assms Some show ?thesis by (simp add: matchOption_def pushOption_clean')
  next
    case n1: None
    show ?thesis
    proof (cases "orElse (markedMatch CROSS (trim l)) (markedMatch CROSS l)")
      case (Some m)
      with t have "sublist (snd m) l" by (simp add: orElse_suffix)
      with assms Some n1 show ?thesis by (simp add: matchOption_def pushOption_clean')
    next
      case n2: None
      show ?thesis
      proof (cases "normalMatch (trim l)")
        case None
        with assms n1 n2 show ?thesis by (simp add: matchOption_def pushQuestion_clean)
      next
        case (Some m)
        then have "suffix (snd m) (trim l)" by (simp add: normalMatch_def letterDotText_suffix)
        then have "sublist (snd m) (trim l)" by (rule suffix_imp_sublist)
        then have "sublist (snd m) l" using t by (rule sublist_trans)
        with assms Some n1 n2 show ?thesis
          by (simp add: matchOption_def pushOption_clean' pushQuestion_clean)
      qed
    qed
  qed
qed

lemma scanLine_clean: "clean st \<Longrightarrow> clean (scanLine st l)"
proof (cases "correctAnswerMatch (trim l)")
  case None
  assume c: "clean st"
  from None have "correctAnswerMatch l = None" by (rule noMarker_untrim)
  with c have "clean (matchOption st (trim l) l)" by (rule matchOption_clean)
  with c None show ?thesis by (simp add: scanLine_def Let_def clean_def)
next
  case (Some a)
  assume "clean st"
  with Some show ?thesis by (simp add: scanLine_def Let_def clean_def)
qed

lemma scanLines_clean: "clean st \<Longrightarrow> clean (scanLines st ls)"
  by (induction ls arbitrary: st) (simp_all add: scanLines_Nil scanLines_Cons scanLine_clean)

lemma clean_start: "clean scanStart"
  by (simp add: clean_def scanStart_def)

subsection \<open>The feedback line and the instant feedback line\<close>

lemma removeStars_id: "\<not> includesStr s (js ''**'') \<Longrightarrow> removeStars s = s"
proof (induction s rule: removeStars.induct)
  case (1 a b cs)
  from "1.prems" have n: "\<not> sublist [42, 42] (a # b # cs)"
    by (simp add: includesStr_def js_def)
  then have ab: "\<not> (a = 42 \<and> b = 42)"
    by (auto simp: sublist_Cons_right)
  from n have "\<not> sublist [42, 42] (b # cs)"
    by (simp add: sublist_Cons_right [of _ a])
  then have "\<not> includesStr (b # cs) (js ''**'')"
    by (simp add: includesStr_def js_def)
  with "1.IH"(2) ab have "removeStars (b # cs) = b # cs" by blast
  with ab show ?case by auto
qed simp_all

lemma trim_keeps_noStars:
  "\<not> includesStr l (js ''**'') \<Longrightarrow> \<not> includesStr (trim l) (js ''**'')"
  unfolding includesStr_def using trim_sublist [of l] sublist_trans by blast

lemma feedback_clean:
  assumes "list_all (\<lambda>l. \<not> includesStr l (js ''**'')) (filter setsFeedback ls)"
  shows "correctAnswerMatch (feedbackMessage (scanLines scanStart ls)) = None"
proof (cases "filter setsFeedback ls = []")
  case True
  with scanLines_feedback [of scanStart ls] show ?thesis by (simp add: scanStart_def)
next
  case False
  let ?l = "last (filter setsFeedback ls)"
  from False have m: "?l \<in> set (filter setsFeedback ls)" by (rule last_in_set)
  then have f: "correctAnswerMatch (trim ?l) = None" by (simp add: setsFeedback_def)
  from m assms have "\<not> includesStr ?l (js ''**'')" by (simp add: list_all_iff)
  then have "removeStars (trim ?l) = trim ?l"
    by (intro removeStars_id trim_keeps_noStars)
  with f False scanLines_feedback [of scanStart ls] show ?thesis by simp
qed

lemma markerLetter_short: "length (markerLetter l) \<le> 1"
  by (simp add: markerLetter_def split: option.splits)

lemma parsed_letter_short:
  assumes "quizDataOf m = Some q"
  shows "length (correctAnswerLetter q) \<le> 1"
proof -
  from assms have "correctAnswerLetter q =
      scanCorrectLetter (scanLines scanStart (split_nl (content m)))"
    by (auto simp: quizDataOf_def parseQuizQuestion_def toQuizData_def split: if_splits)
  moreover have "length (markerLetter x) \<le> Suc 0" for x
    using markerLetter_short [of x] by simp
  ultimately show ?thesis
    using scanLines_letter [of scanStart "split_nl (content m)"]
    by (simp add: scanStart_def)
qed

lemma instantLine_clean:
  assumes "\<forall>f. instantFeedback st = Some f \<longrightarrow> length (correctLetter f) \<le> 1"
    and "instantLine q st = Some x"
  shows "correctAnswerMatch x = None"
proof -
  from assms(2) obtain f where o: "overlay q st = Some f"
    and x: "x = (if isCorrect f then CHECK # js '' Correct!''
        else CROSS # js '' Incorrect. The correct answer is '' @ correctLetter f @ js ''.'')"
    by (auto simp: instantLine_def split: option.splits)
  from o have "instantFeedback st = Some f" by (simp add: overlay_def split: if_splits)
  with assms(1) have "length (correctLetter f) \<le> 1" by simp
  then consider "correctLetter f = []" | c where "correctLetter f = [c]"
    by (cases "correctLetter f") auto
  then show ?thesis
  proof cases
    case 1
    with x show ?thesis by (simp add: eval_defs)
  next
    case 2
    with x show ?thesis by (simp add: eval_defs)
  qed
qed

section \<open>The component instance\<close>

text \<open>The handler of a button of the last render is the handler modelled by \<open>onClick\<close>.\<close>

lemma leftoverClick_current:
  "leftoverClick onSend q (selectedAnswer st) st opt = onClick onSend q st opt"
  by (auto simp: leftoverClick_def onClick_def buttonDisabled_def handleOptionClick_def)

subsection \<open>The lock and the overlay as intended\<close>

lemma first_click_records_selection:
  assumes "\<not> isAnswered q" and "correctAnswerLetter q \<noteq> []" and "selectedAnswer st = None"
  shows "onClick True q st opt =
      st\<lparr>instantFeedback := Some \<lparr>selectedLetter = letter opt,
            isCorrect = (letter opt = correctAnswerLetter q),
            correctLetter = correctAnswerLetter q\<rparr>,
         selectedAnswer := Some (letter opt),
         sentMessages := sentMessages st @ [letter opt]\<rparr>"
    and "onClick onSend q' (onClick True q st opt) opt' = onClick True q st opt"
  using assms
  by (simp_all add: onClick_def buttonDisabled_def handleOptionClick_def truthy_def)

lemma answered_shows_no_overlay:
  assumes "isAnswered q"
  shows "instantBadgesOf q st opt = []" and "instantLine q st = None"
    and "statusOf q st opt = status opt"
  using assms
  by (simp_all add: instantBadgesOf_def instantLine_def statusOf_def overlay_def)

subsection \<open>When every rendered question has buttons with keys of their own\<close>

lemma settled_mounted: "settled (mounted, None)"
  by (simp add: settled_def mounted_def isAnsweredDep_def)

lemma onClick_cases:
  "onClick onSend q st opt = st \<or>
   (\<not> isAnswered q \<and> selectedAnswer st = None \<and> correctAnswerLetter q \<noteq> [] \<and> onSend \<and>
    onClick onSend q st opt =
      st\<lparr>instantFeedback := Some \<lparr>selectedLetter = letter opt,
            isCorrect = (letter opt = correctAnswerLetter q),
            correctLetter = correctAnswerLetter q\<rparr>,
         selectedAnswer := Some (letter opt),
         sentMessages := sentMessages st @ [letter opt]\<rparr>)"
  by (auto simp: onClick_def buttonDisabled_def handleOptionClick_def truthy_def)

lemma settled_click:
  assumes "settled (st, Some q)"
  shows "settled (onClick onSend q st opt, Some q)"
  using onClick_cases [of onSend q st opt] assms
  by (auto simp: settled_def isAnsweredDep_def)

lemma settled_render:
  assumes "settled (st, quiz)"
  shows "settled (afterRender quiz' st, quiz')"
  using assms
  by (auto simp: settled_def afterRender_def resetEffect_def)

lemma keyed_step:
  assumes "settled (st, quiz)" and "wellKeyed e"
    and "\<forall>q. quiz = Some q \<longrightarrow> distinct (buttonKeys q)"
  shows "\<exists>st' quiz'. step onSend (st, quiz, []) e = (st', quiz', []) \<and> settled (st', quiz') \<and>
    (\<forall>q. quiz' = Some q \<longrightarrow> distinct (buttonKeys q))"
proof (cases e)
  case (Render m)
  have "leftBehind quiz (quizDataOf m) st [] = []"
    using assms(3) by (simp add: leftBehind_def split: option.splits)
  with Render assms show ?thesis
    by (auto simp: settled_render split: option.splits)
next
  case (Click opt)
  show ?thesis
  proof (cases quiz)
    case None
    with Click assms show ?thesis by simp
  next
    case (Some q)
    with assms(1) have "settled (onClick onSend q st opt, Some q)"
      by (simp add: settled_click)
    then have "settled (afterRender (Some q) (onClick onSend q st opt), Some q)"
      by (rule settled_render)
    with Click Some assms show ?thesis by simp
  qed
next
  case (LeftoverClick i opt)
  with assms show ?thesis by simp
qed

lemma keyed_run:
  assumes "\<forall>e \<in> set evs. wellKeyed e"
  shows "\<exists>st quiz. run onSend evs = (st, quiz, []) \<and> settled (st, quiz) \<and>
    (\<forall>q. quiz = Some q \<longrightarrow> distinct (buttonKeys q))"
  using assms
proof (induction evs rule: rev_induct)
  case Nil
  then show ?case by (simp add: run_def settled_mounted)
next
  case (snoc e evs)
  then obtain st quiz where r: "run onSend evs = (st, quiz, [])" and s: "settled (st, quiz)"
    and d: "\<forall>q. quiz = Some q \<longrightarrow> distinct (buttonKeys q)"
    by auto
  from snoc.prems have "wellKeyed e" by simp
  with s d keyed_step [of st quiz e onSend] r show ?case
    by (simp add: run_def)
qed

lemma distinct_keys_forward_once:
  assumes "\<forall>e \<in> set evs. wellKeyed e"
  shows "length (sentMessages (fst (run onSend evs))) \<le> 1"
proof -
  from keyed_run [OF assms, of onSend] obtain st quiz
    where "run onSend evs = (st, quiz, [])" and "settled (st, quiz)" by blast
  then show ?thesis by (auto simp: settled_def split: option.splits)
qed

lemma distinct_keys_overlay_cleared:
  assumes "\<forall>e \<in> set evs. wellKeyed e" and "run onSend evs = (st, quiz, old)"
  shows "instantFeedback (afterRender (quizDataOf m) st) =
    (if isAnsweredDep (quizDataOf m) = Some True then None else instantFeedback st)"
proof -
  from keyed_run [OF assms(1), of onSend] assms(2) have s: "settled (st, quiz)" by auto
  show ?thesis
  proof (cases "effectDep st = Some (isAnsweredDep (quizDataOf m))")
    case True
    with s have "isAnsweredDep (quizDataOf m) = Some True \<longrightarrow> instantFeedback st = None"
      by (auto simp: settled_def)
    with True show ?thesis by (simp add: afterRender_def)
  next
    case False
    then show ?thesis by (simp add: afterRender_def resetEffect_def)
  qed
qed

subsection \<open>The hidden letters in any state\<close>

lemma afterRender_feedback:
  "instantFeedback (afterRender quiz st) = None \<or>
   instantFeedback (afterRender quiz st) = instantFeedback st"
  by (simp add: afterRender_def resetEffect_def)

lemma shortLetters_step:
  assumes "shortLetters c"
  shows "shortLetters (step onSend c e)"
proof -
  obtain st quiz old where c: "c = (st, quiz, old)" by (cases c)
  have ar: "(case instantFeedback (afterRender z s) of None \<Rightarrow> True
      | Some f \<Rightarrow> length (correctLetter f) \<le> 1)"
    if "(case instantFeedback s of None \<Rightarrow> True | Some f \<Rightarrow> length (correctLetter f) \<le> 1)"
    for z s
    using that afterRender_feedback [of z s] by (auto split: option.splits)
  show ?thesis
  proof (cases e)
    case (Render m)
    have p: "case quizDataOf m of None \<Rightarrow> True | Some q \<Rightarrow> length (correctAnswerLetter q) \<le> 1"
      by (auto split: option.splits dest: parsed_letter_short)
    have l: "list_all (\<lambda>r. length (correctAnswerLetter (fst r)) \<le> 1)
        (leftBehind quiz (quizDataOf m) st old)"
      using assms c by (auto simp: shortLetters_def leftBehind_def split: option.splits)
    from assms c have "case instantFeedback st of None \<Rightarrow> True
        | Some f \<Rightarrow> length (correctLetter f) \<le> 1"
      by (simp add: shortLetters_def)
    then have "case instantFeedback (afterRender (quizDataOf m) st) of None \<Rightarrow> True
        | Some f \<Rightarrow> length (correctLetter f) \<le> 1"
      by (rule ar)
    with p l c Render show ?thesis by (simp add: shortLetters_def)
  next
    case (Click opt)
    show ?thesis
    proof (cases quiz)
      case None
      with c Click assms show ?thesis by simp
    next
      case (Some q)
      from assms c Some have "case instantFeedback (onClick onSend q st opt) of None \<Rightarrow> True
          | Some f \<Rightarrow> length (correctLetter f) \<le> 1"
        by (auto simp: shortLetters_def onClick_def handleOptionClick_def split: option.splits)
      then have "case instantFeedback (afterRender quiz (onClick onSend q st opt)) of None \<Rightarrow> True
          | Some f \<Rightarrow> length (correctLetter f) \<le> 1"
        by (rule ar)
      with assms c Click Some show ?thesis by (simp add: shortLetters_def)
    qed
  next
    case (LeftoverClick i opt)
    show ?thesis
    proof (cases "i < length old \<and> opt \<in> set (options (fst (old ! i)))")
      case False
      with c LeftoverClick assms show ?thesis by auto
    next
      case True
      with assms c have "length (correctAnswerLetter (fst (old ! i))) \<le> 1"
        by (simp add: shortLetters_def list_all_length)
      with assms c have "case instantFeedback
            (leftoverClick onSend (fst (old ! i)) (snd (old ! i)) st opt) of None \<Rightarrow> True
          | Some f \<Rightarrow> length (correctLetter f) \<le> 1"
        by (auto simp: shortLetters_def leftoverClick_def split: option.splits)
      then have "case instantFeedback (afterRender quiz
            (leftoverClick onSend (fst (old ! i)) (snd (old ! i)) st opt)) of None \<Rightarrow> True
          | Some f \<Rightarrow> length (correctLetter f) \<le> 1"
        by (rule ar)
      with assms c LeftoverClick True show ?thesis by (simp add: shortLetters_def)
    qed
  qed
qed

lemma shortLetters_run: "shortLetters (run onSend evs)"
proof (induction evs rule: rev_induct)
  case Nil
  then show ?case by (simp add: run_def shortLetters_def mounted_def)
next
  case (snoc e evs)
  then show ?case by (simp add: run_def shortLetters_step)
qed

lemma run_instant_letter_short:
  "instantFeedback (fst (run onSend evs)) = Some f \<Longrightarrow> length (correctLetter f) \<le> 1"
  using shortLetters_run [of onSend evs]
  by (cases "run onSend evs") (auto simp: shortLetters_def)

section \<open>The claims about the parser\<close>

text \<open>
  C1. The parser returns a quiz question only if the line scan of the body collected
  exactly 4 options (the question then has these 4 options); for a body whose scan collects
  fewer or more, it returns none and the component renders the content as plain text.
\<close>

theorem parse_only_with_four_options:
  "(quizDataOf m = Some q \<longrightarrow>
      length (scanOptions (scanLines scanStart (split_nl (content m)))) = 4 \<and>
      length (options q) = 4) \<and>
   (length (scanOptions (scanLines scanStart (split_nl (content m)))) \<noteq> 4 \<longrightarrow>
      quizDataOf m = None \<and> render m st = MessageText (content m))"
  by (auto simp: quizDataOf_def parseQuizQuestion_def toQuizData_def render_def
      split: if_splits)

theorem parse_only_with_four_options_witness:
  "quizDataOf (msg ASSISTANT body4) = Some quiz4 \<and> length (options quiz4) = 4 \<and>
   length (scanOptions (scanLines scanStart (split_nl (content (msg ASSISTANT body3))))) \<noteq> 4 \<and>
   render (msg ASSISTANT body3) mounted = MessageText body3 \<and>
   length (scanOptions (scanLines scanStart (split_nl (content (msg ASSISTANT body5))))) \<noteq> 4 \<and>
   render (msg ASSISTANT body5) mounted = MessageText body5"
  using parse_only_with_four_options [of "msg ASSISTANT body4" quiz4 mounted]
    parse_only_with_four_options [of "msg ASSISTANT body3" quiz4 mounted]
    parse_only_with_four_options [of "msg ASSISTANT body5" quiz4 mounted]
    parse_body4 scan_body3 scan_body5
  by (simp add: quizDataOf_def msg_def quiz4_def)

text \<open>
  C2, as the claim states it, fails: a body whose option lines are indented has no line that
  matches the line-anchored pattern and still is detected and parsed, and a message of role
  \<open>system\<close> is detected and parsed as well.
\<close>

theorem detection_is_line_anchored_counterexample:
  "quizDataOf (msg ASSISTANT indentedBody) = Some quiz4 \<and>
   detected (msg ASSISTANT indentedBody) \<and>
   \<not> specDetected (msg ASSISTANT indentedBody) \<and>
   quizDataOf (msg SYSTEM body4) = Some quiz4 \<and>
   detected (msg SYSTEM body4) \<and>
   \<not> specDetected (msg SYSTEM body4)"
proof -
  have a: "quizDataOf (msg ASSISTANT indentedBody) = Some quiz4"
    using parse_indentedBody by (simp add: quizDataOf_def msg_def)
  have b: "detected (msg ASSISTANT indentedBody)"
    by (simp add: detected_def msg_def indentedBody_def eval_defs)
  have c: "\<not> specDetected (msg ASSISTANT indentedBody)"
    by (simp add: specDetected_def msg_def indentedBody_def eval_defs)
  have d: "quizDataOf (msg SYSTEM body4) = Some quiz4"
    using parse_body4 by (simp add: quizDataOf_def msg_def)
  have e: "detected (msg SYSTEM body4)"
    by (simp add: detected_def msg_def body4_def eval_defs)
  have f: "\<not> specDetected (msg SYSTEM body4)"
    by (simp add: specDetected_def msg_def)
  from a b c d e f show ?thesis by simp
qed

text \<open>
  C2, amended. A message is detected as a quiz question if and only if its content has,
  anywhere, a letter \<open>A\<close> to \<open>D\<close>, a dot, one or more white space characters and then a
  character that is no line terminator (a match of the unanchored \<open>[A-D]\.\s+.+\<close>), and
  its role is not \<open>user\<close>; for a message of role \<open>user\<close> the parser returns no quiz
  question; an undetected message gives none and a detected one the result of the line scan.
\<close>

theorem detection_by_unanchored_pattern:
  "(detected m \<longleftrightarrow>
      (\<exists>ps l ws d ss. content m = ps @ l # 46 # ws @ d # ss \<and> isAD l \<and> ws \<noteq> [] \<and>
         (\<forall>w \<in> set ws. isWhiteSpace w) \<and> \<not> isLineTerminator d) \<and>
      role m \<noteq> USER) \<and>
   (role m = USER \<longrightarrow> quizDataOf m = None) \<and>
   (\<not> detected m \<longrightarrow> quizDataOf m = None) \<and>
   (detected m \<longrightarrow> quizDataOf m = toQuizData (scanLines scanStart (split_nl (content m))))"
proof -
  have a: "detected m \<longleftrightarrow>
      (\<exists>ps l ws d ss. content m = ps @ l # 46 # ws @ d # ss \<and> isAD l \<and> ws \<noteq> [] \<and>
         (\<forall>w \<in> set ws. isWhiteSpace w) \<and> \<not> isLineTerminator d) \<and>
      role m \<noteq> USER"
    unfolding detected_def hasOptions_iff by blast
  have b: "role m = USER \<longrightarrow> quizDataOf m = None"
    "\<not> detected m \<longrightarrow> quizDataOf m = None"
    "detected m \<longrightarrow> quizDataOf m = toQuizData (scanLines scanStart (split_nl (content m)))"
    by (simp_all add: detected_def quizDataOf_def parseQuizQuestion_def)
  from a b show ?thesis by blast
qed

theorem detection_by_unanchored_pattern_witness:
  "role (msg USER body4) = USER \<and> quizDataOf (msg USER body4) = None \<and>
   detected (msg ASSISTANT indentedBody) \<and>
   quizDataOf (msg ASSISTANT indentedBody) =
     toQuizData (scanLines scanStart (split_nl (content (msg ASSISTANT indentedBody)))) \<and>
   \<not> detected (msg ASSISTANT (js ''Quiz Complete! You scored 4/5.'')) \<and>
   quizDataOf (msg ASSISTANT (js ''Quiz Complete! You scored 4/5.'')) = None"
proof -
  have b: "detected (msg ASSISTANT indentedBody)"
    by (simp add: detected_def msg_def indentedBody_def eval_defs)
  have c: "\<not> detected (msg ASSISTANT (js ''Quiz Complete! You scored 4/5.''))"
    by (simp add: detected_def msg_def eval_defs)
  have u: "role (msg USER body4) = USER" by (simp add: msg_def)
  from detection_by_unanchored_pattern [of "msg USER body4"]
    detection_by_unanchored_pattern [of "msg ASSISTANT indentedBody"]
    detection_by_unanchored_pattern [of "msg ASSISTANT (js ''Quiz Complete! You scored 4/5.'')"]
    b c u
  show ?thesis by blast
qed

text \<open>
  C3, as the claim states it, fails: an assistant message with three options and a marker
  line does not parse and is shown as it is, marker included; a question line with the
  malformed \<open>[CORRECT:E]\<close> is shown in the question text of a parsed quiz; and the feedback
  line \<open>CHECK Correct! [CORR**ECT:B]\<close> has no marker when it is tested, but the feedback
  shown is the line without \<open>**\<close>, which has the marker \<open>[CORRECT:B]\<close>.
\<close>

theorem hidden_marker_shown_counterexample:
  "shownTexts (render (msg ASSISTANT leakBody) mounted) = [leakBody] \<and>
   includesStr leakBody (js ''[CORRECT:'') \<and>
   hd (shownTexts (render (msg ASSISTANT oddBody) mounted)) = js ''Which? [CORRECT:E]'' \<and>
   includesStr (js ''Which? [CORRECT:E]'') (js ''[CORRECT:'') \<and>
   last (split_nl starLeakBody) = starLeakLine \<and>
   correctAnswerMatch (trim starLeakLine) = None \<and>
   last (shownTexts (render (msg ASSISTANT starLeakBody) mounted)) =
     CHECK # js '' Correct! [CORRECT:B]'' \<and>
   includesStr (CHECK # js '' Correct! [CORRECT:B]'') (js ''[CORRECT:B]'')"
proof -
  have a: "render (msg ASSISTANT leakBody) mounted = MessageText leakBody"
    using parse_leakBody by (simp add: render_def quizDataOf_def msg_def)
  have b: "includesStr leakBody (js ''[CORRECT:'')"
    by (simp add: leakBody_def eval_defs)
  have c: "hd (shownTexts (render (msg ASSISTANT oddBody) mounted)) = js ''Which? [CORRECT:E]''"
    using parse_oddBody by (simp add: render_def quizDataOf_def msg_def oddQuiz_def)
  have d: "includesStr (js ''Which? [CORRECT:E]'') (js ''[CORRECT:'')"
    by (simp add: eval_defs)
  have e: "last (split_nl starLeakBody) = starLeakLine"
    "correctAnswerMatch (trim starLeakLine) = None"
    by (simp_all add: starLeakBody_def starLeakLine_def eval_defs)
  have f: "last (shownTexts (render (msg ASSISTANT starLeakBody) mounted)) =
     CHECK # js '' Correct! [CORRECT:B]''"
    using parse_starLeakBody
    by (simp add: render_def quizDataOf_def msg_def starLeakQuiz_def backendLine_def
        instantLine_def overlay_def mounted_def)
  have g: "includesStr (CHECK # js '' Correct! [CORRECT:B]'') (js ''[CORRECT:B]'')"
    by (simp add: eval_defs)
  from a b c d e f g show ?thesis by simp
qed

text \<open>
  C3, amended. For a message that parses as a quiz question, the question text and the
  letter and text of every option have no marker \<open>[CORRECT:<Letter>]\<close> with a letter
  \<open>A\<close> to \<open>D\<close>; the lines with such a marker are excluded from the question text and the
  option list (both are what the scan gives without these lines) and the last of them sets the
  hidden correct letter, which is one letter or empty; the component renders this question
  text and these option letters and texts. When no feedback line of the body contains \<open>**\<close>,
  the feedback shown has no marker either, and then no text of the rendered quiz has one, the
  instant feedback line included, in a state whose instant feedback carries a hidden letter
  of at most one character (as every state of the component does).
\<close>

theorem marker_lines_are_stripped:
  assumes "quizDataOf m = Some q"
  shows "correctAnswerMatch (question q) = None \<and>
    (\<forall>x \<in> set (options q).
       correctAnswerMatch (letter x) = None \<and> correctAnswerMatch (optionText x) = None) \<and>
    question q =
      join_nl (questionLines
        (scanLines scanStart (filter (\<lambda>l. \<not> setsLetter l) (split_nl (content m))))) \<and>
    options q =
      scanOptions (scanLines scanStart (filter (\<lambda>l. \<not> setsLetter l) (split_nl (content m)))) \<and>
    correctAnswerLetter q =
      (if filter setsLetter (split_nl (content m)) = [] then []
       else markerLetter (last (filter setsLetter (split_nl (content m))))) \<and>
    render m st =
      QuizView (question q) (map (renderButton q st) (options q)) (instantLine q st)
        (backendLine q) \<and>
    map buttonLetter (map (renderButton q st) (options q)) = map letter (options q) \<and>
    map buttonText (map (renderButton q st) (options q)) = map optionText (options q) \<and>
    length (correctAnswerLetter q) \<le> 1 \<and>
    (list_all (\<lambda>l. \<not> includesStr l (js ''**''))
       (filter setsFeedback (split_nl (content m))) \<longrightarrow>
     correctAnswerMatch (feedback q) = None \<and>
     ((\<forall>f. instantFeedback st = Some f \<longrightarrow> length (correctLetter f) \<le> 1) \<longrightarrow>
      (\<forall>x \<in> set (shownTexts (render m st)). correctAnswerMatch x = None)))"
proof -
  let ?ls = "split_nl (content m)"
  let ?st = "scanLines scanStart ?ls"
  let ?ft = "scanLines scanStart (filter (\<lambda>l. \<not> setsLetter l) ?ls)"
  from assms have q: "question q = join_nl (questionLines ?st)" "options q = scanOptions ?st"
    "correctAnswerLetter q = scanCorrectLetter ?st"
    by (auto simp: quizDataOf_def parseQuizQuestion_def toQuizData_def split: if_splits)
  have "clean ?st" by (simp add: scanLines_clean clean_start)
  then have c: "\<forall>l \<in> set (questionLines ?st). correctAnswerMatch l = None"
    "\<forall>x \<in> set (scanOptions ?st).
       correctAnswerMatch (letter x) = None \<and> correctAnswerMatch (optionText x) = None"
    by (simp_all add: clean_def list_all_iff)
  from c(1) have t: "correctAnswerMatch (join_nl (questionLines ?st)) = None"
    by (rule noMarker_join)
  have "sameOutput ?st ?ft"
    by (rule scanLines_filter_same) (simp_all add: sameOutput_refl)
  then have same: "questionLines ?st = questionLines ?ft" "scanOptions ?st = scanOptions ?ft"
    by (simp_all add: sameOutput_def)
  have l: "scanCorrectLetter ?st =
      (if filter setsLetter ?ls = [] then [] else markerLetter (last (filter setsLetter ?ls)))"
    using scanLines_letter [of scanStart ?ls] by (simp add: scanStart_def)
  have r: "render m st =
      QuizView (question q) (map (renderButton q st) (options q)) (instantLine q st)
        (backendLine q)"
    using assms by (simp add: render_def)
  have b: "map buttonLetter (map (renderButton q st) (options q)) = map letter (options q)"
    "map buttonText (map (renderButton q st) (options q)) = map optionText (options q)"
    by (simp_all add: renderButton_def o_def)
  from q(1) t have g1: "correctAnswerMatch (question q) = None" by simp
  from q(2) c(2) have g2: "\<forall>x \<in> set (options q).
       correctAnswerMatch (letter x) = None \<and> correctAnswerMatch (optionText x) = None"
    by simp
  from q(1) same(1) have g3: "question q = join_nl (questionLines ?ft)" by simp
  from q(2) same(2) have g4: "options q = scanOptions ?ft" by simp
  from q(3) l have g5: "correctAnswerLetter q =
      (if filter setsLetter ?ls = [] then [] else markerLetter (last (filter setsLetter ?ls)))"
    by simp
  have g6: "length (correctAnswerLetter q) \<le> 1"
    using assms by (rule parsed_letter_short)
  have g7: "list_all (\<lambda>l. \<not> includesStr l (js ''**'')) (filter setsFeedback ?ls) \<longrightarrow>
     correctAnswerMatch (feedback q) = None \<and>
     ((\<forall>f. instantFeedback st = Some f \<longrightarrow> length (correctLetter f) \<le> 1) \<longrightarrow>
      (\<forall>x \<in> set (shownTexts (render m st)). correctAnswerMatch x = None))"
  proof (intro impI conjI ballI)
    assume n: "list_all (\<lambda>l. \<not> includesStr l (js ''**'')) (filter setsFeedback ?ls)"
    from assms have "feedback q = feedbackMessage ?st"
      by (auto simp: quizDataOf_def parseQuizQuestion_def toQuizData_def split: if_splits)
    with n show fb: "correctAnswerMatch (feedback q) = None"
      by (simp add: feedback_clean)
    fix x
    assume i: "\<forall>f. instantFeedback st = Some f \<longrightarrow> length (correctLetter f) \<le> 1"
      and x: "x \<in> set (shownTexts (render m st))"
    from x r consider "x = question q"
      | y :: quizOption where "y \<in> set (options q)" "x = letter y \<or> x = optionText y"
      | "instantLine q st = Some x" | "backendLine q = Some x"
      by (auto simp: renderButton_def split: option.splits)
    then show "correctAnswerMatch x = None"
    proof cases
      case 1
      with g1 show ?thesis by simp
    next
      case 2
      with g2 show ?thesis by auto
    next
      case 3
      with i show ?thesis by (rule instantLine_clean)
    next
      case 4
      then have "x = feedback q" by (simp add: backendLine_def split: if_splits)
      with fb show ?thesis by simp
    qed
  qed
  from g1 g2 g3 g4 g5 r b g6 g7 show ?thesis by blast
qed

theorem marker_lines_are_stripped_witness:
  "quizDataOf (msg ASSISTANT body4) = Some quiz4 \<and>
   filter setsLetter (split_nl (content (msg ASSISTANT body4))) = [js ''[CORRECT:B]''] \<and>
   correctAnswerLetter quiz4 = markerLetter (js ''[CORRECT:B]'') \<and>
   optionB \<in> set (options quiz4) \<and>
   correctAnswerMatch (optionText optionB) = None \<and>
   correctAnswerMatch (question quiz4) = None \<and>
   instantLine quiz4 clickedA = Some (CROSS # js '' Incorrect. The correct answer is B.'') \<and>
   list_all (\<lambda>x. correctAnswerMatch x = None)
     (shownTexts (render (msg ASSISTANT body4) clickedA)) \<and>
   quizDataOf (msg ASSISTANT answeredBody) = Some answeredQuiz \<and>
   filter setsFeedback (split_nl (content (msg ASSISTANT answeredBody))) =
     [CROSS # js '' Incorrect. The correct answer is B.''] \<and>
   correctAnswerMatch (feedback answeredQuiz) = None"
proof -
  have q: "quizDataOf (msg ASSISTANT body4) = Some quiz4"
    using parse_body4 by (simp add: quizDataOf_def msg_def)
  have qa: "quizDataOf (msg ASSISTANT answeredBody) = Some answeredQuiz"
    using parse_answeredBody by (simp add: quizDataOf_def msg_def)
  have f: "filter setsLetter (split_nl (content (msg ASSISTANT body4))) = [js ''[CORRECT:B]'']"
    by (simp add: msg_def body4_def setsLetter_def eval_defs)
  have b: "optionB \<in> set (options quiz4)"
    by (simp add: quiz4_def optionB_def)
  have n: "filter setsFeedback (split_nl (content (msg ASSISTANT body4))) = []"
    by (simp add: msg_def body4_def setsFeedback_def eval_defs)
  have na: "filter setsFeedback (split_nl (content (msg ASSISTANT answeredBody))) =
      [CROSS # js '' Incorrect. The correct answer is B.'']"
    by (simp add: msg_def answeredBody_def setsFeedback_def eval_defs)
  have s: "\<not> includesStr (CROSS # js '' Incorrect. The correct answer is B.'') (js ''**'')"
    by (simp add: eval_defs)
  have i: "\<forall>f. instantFeedback clickedA = Some f \<longrightarrow> length (correctLetter f) \<le> 1"
    by (auto simp: clickedA_def js_def)
  have l: "instantLine quiz4 clickedA = Some (CROSS # js '' Incorrect. The correct answer is B.'')"
    by (simp add: instantLine_def overlay_def quiz4_def clickedA_def js_def)
  note t = marker_lines_are_stripped [OF q, of clickedA]
  note ta = marker_lines_are_stripped [OF qa, of mounted]
  from t have g1: "correctAnswerMatch (question quiz4) = None" by blast
  from t b have g2: "correctAnswerMatch (optionText optionB) = None" by blast
  from t have "correctAnswerLetter quiz4 =
      (if filter setsLetter (split_nl (content (msg ASSISTANT body4))) = [] then []
       else markerLetter (last (filter setsLetter (split_nl (content (msg ASSISTANT body4))))))"
    by blast
  then have g3: "correctAnswerLetter quiz4 = markerLetter (js ''[CORRECT:B]'')"
    by (simp only: f) simp
  have h: "list_all (\<lambda>l. \<not> includesStr l (js ''**''))
      (filter setsFeedback (split_nl (content (msg ASSISTANT body4))))"
    by (simp add: n)
  from t h i have "\<forall>x \<in> set (shownTexts (render (msg ASSISTANT body4) clickedA)).
      correctAnswerMatch x = None"
    by blast
  then have g4: "list_all (\<lambda>x. correctAnswerMatch x = None)
      (shownTexts (render (msg ASSISTANT body4) clickedA))"
    by (simp only: list_all_iff)
  have ha: "list_all (\<lambda>l. \<not> includesStr l (js ''**''))
      (filter setsFeedback (split_nl (content (msg ASSISTANT answeredBody))))"
    using s by (simp add: na)
  from ta ha have g5: "correctAnswerMatch (feedback answeredQuiz) = None" by blast
  from q f g3 b g2 g1 l g4 qa na g5 show ?thesis by blast
qed

text \<open>
  C6, as the claim states it, fails: the lines \<open>B. 4 [CORRECT:B]\<close> and
  \<open>C. Type your answer in the box\<close> have the plain option form, and the line
  \<open>CHECK A. CHECK Correct answer\<close> the marked-correct form, yet the scan records no option
  for them: the marker, the feedback phrase and the footer text are tested first.
\<close>

theorem line_with_option_form_is_skipped_counterexample:
  "normalMatch (trim (js ''B. 4 [CORRECT:B]'')) = Some (66, js ''4 [CORRECT:B]'') \<and>
   scanOptions (scanLine scanStart (js ''B. 4 [CORRECT:B]'')) = [] \<and>
   normalMatch (trim (js ''C. Type your answer in the box'')) =
     Some (67, js ''Type your answer in the box'') \<and>
   scanOptions (scanLine scanStart (js ''C. Type your answer in the box'')) = [] \<and>
   markedMatch CHECK (trim (CHECK # js '' A. '' @ CHECK # js '' Correct answer'')) =
     Some (65, CHECK # js '' Correct answer'') \<and>
   scanOptions (scanLine scanStart (CHECK # js '' A. '' @ CHECK # js '' Correct answer'')) = []"
  by (simp add: eval_defs)

text \<open>
  C6, amended. A line that is no marker, feedback or footer line is matched against the three option
  forms in the order marked-correct, marked-incorrect, plain, and the first form that matches
  appends an option with the status correct, incorrect or normal, the matched letter and the
  trimmed matched text; for a letter \<open>L\<close> and a trimmed text \<open>t\<close> on one line, the lines
  \<open>CHECK L. t\<close>, \<open>CROSS L. t\<close> and \<open>L. t\<close> match with exactly \<open>L\<close> and \<open>t\<close>.
\<close>

theorem option_forms_in_priority_order:
  "(orElse (markedMatch CHECK trimmedLine) (markedMatch CHECK line) = Some m \<longrightarrow>
      matchOption st trimmedLine line =
        st\<lparr>foundOptions := True,
           scanOptions := scanOptions st @
             [\<lparr>letter = [fst m], optionText = trim (snd m), status = Correct\<rparr>]\<rparr>) \<and>
   (orElse (markedMatch CHECK trimmedLine) (markedMatch CHECK line) = None \<and>
    orElse (markedMatch CROSS trimmedLine) (markedMatch CROSS line) = Some m \<longrightarrow>
      matchOption st trimmedLine line =
        st\<lparr>foundOptions := True,
           scanOptions := scanOptions st @
             [\<lparr>letter = [fst m], optionText = trim (snd m), status = Incorrect\<rparr>]\<rparr>) \<and>
   (orElse (markedMatch CHECK trimmedLine) (markedMatch CHECK line) = None \<and>
    orElse (markedMatch CROSS trimmedLine) (markedMatch CROSS line) = None \<and>
    normalMatch trimmedLine = Some m \<longrightarrow>
      matchOption st trimmedLine line =
        st\<lparr>foundOptions := True,
           scanOptions := scanOptions st @
             [\<lparr>letter = [fst m], optionText = trim (snd m), status = Normal\<rparr>]\<rparr>) \<and>
   (isAD L \<and> ws \<noteq> [] \<and> (\<forall>w \<in> set ws. isWhiteSpace w) \<and> (\<forall>w \<in> set ws0. isWhiteSpace w) \<and>
    t \<noteq> [] \<and> \<not> isWhiteSpace (hd t) \<and> \<not> isWhiteSpace (last t) \<and>
    (\<forall>c \<in> set t. \<not> isLineTerminator c) \<longrightarrow>
      markedMatch CHECK (trim (CHECK # ws0 @ L # 46 # ws @ t)) = Some (L, t) \<and>
      markedMatch CROSS (trim (CROSS # ws0 @ L # 46 # ws @ t)) = Some (L, t) \<and>
      normalMatch (trim (L # 46 # ws @ t)) = Some (L, t) \<and>
      trim t = t) \<and>
   (correctAnswerMatch (trim line) = None \<and> \<not> isFeedbackLine (trim line) \<and>
    \<not> isFooterLine (trim line) \<longrightarrow>
      scanLine st line = matchOption st (trim line) line)"
proof -
  have scan: "correctAnswerMatch (trim line) = None \<and> \<not> isFeedbackLine (trim line) \<and>
    \<not> isFooterLine (trim line) \<longrightarrow>
      scanLine st line = matchOption st (trim line) line"
    by (simp add: scanLine_def Let_def)
  have one: "orElse (markedMatch CHECK trimmedLine) (markedMatch CHECK line) = Some m \<longrightarrow>
      matchOption st trimmedLine line =
        st\<lparr>foundOptions := True,
           scanOptions := scanOptions st @
             [\<lparr>letter = [fst m], optionText = trim (snd m), status = Correct\<rparr>]\<rparr>"
    by (simp add: matchOption_def pushOption_def)
  have two: "orElse (markedMatch CHECK trimmedLine) (markedMatch CHECK line) = None \<and>
    orElse (markedMatch CROSS trimmedLine) (markedMatch CROSS line) = Some m \<longrightarrow>
      matchOption st trimmedLine line =
        st\<lparr>foundOptions := True,
           scanOptions := scanOptions st @
             [\<lparr>letter = [fst m], optionText = trim (snd m), status = Incorrect\<rparr>]\<rparr>"
    by (simp add: matchOption_def pushOption_def)
  have three: "orElse (markedMatch CHECK trimmedLine) (markedMatch CHECK line) = None \<and>
    orElse (markedMatch CROSS trimmedLine) (markedMatch CROSS line) = None \<and>
    normalMatch trimmedLine = Some m \<longrightarrow>
      matchOption st trimmedLine line =
        st\<lparr>foundOptions := True,
           scanOptions := scanOptions st @
             [\<lparr>letter = [fst m], optionText = trim (snd m), status = Normal\<rparr>]\<rparr>"
    using normal_not_marked [of trimmedLine m]
    by (simp add: matchOption_def pushOption_def)
  have forms: "isAD L \<and> ws \<noteq> [] \<and> (\<forall>w \<in> set ws. isWhiteSpace w) \<and>
    (\<forall>w \<in> set ws0. isWhiteSpace w) \<and>
    t \<noteq> [] \<and> \<not> isWhiteSpace (hd t) \<and> \<not> isWhiteSpace (last t) \<and>
    (\<forall>c \<in> set t. \<not> isLineTerminator c) \<longrightarrow>
      markedMatch CHECK (trim (CHECK # ws0 @ L # 46 # ws @ t)) = Some (L, t) \<and>
      markedMatch CROSS (trim (CROSS # ws0 @ L # 46 # ws @ t)) = Some (L, t) \<and>
      normalMatch (trim (L # 46 # ws @ t)) = Some (L, t) \<and>
      trim t = t"
  proof
    assume h: "isAD L \<and> ws \<noteq> [] \<and> (\<forall>w \<in> set ws. isWhiteSpace w) \<and>
      (\<forall>w \<in> set ws0. isWhiteSpace w) \<and>
      t \<noteq> [] \<and> \<not> isWhiteSpace (hd t) \<and> \<not> isWhiteSpace (last t) \<and>
      (\<forall>c \<in> set t. \<not> isLineTerminator c)"
    then have tt: "trim t = t" by (simp add: trim_id)
    have nc: "\<not> isWhiteSpace CHECK" "\<not> isWhiteSpace CROSS"
      by (simp_all add: isWhiteSpace_def CHECK_def CROSS_def)
    from h have t1: "trim (CHECK # ws0 @ L # 46 # ws @ t) = CHECK # ws0 @ L # 46 # ws @ t"
      and t2: "trim (CROSS # ws0 @ L # 46 # ws @ t) = CROSS # ws0 @ L # 46 # ws @ t"
      and t3: "trim (L # 46 # ws @ t) = L # 46 # ws @ t"
      using nc by (simp_all add: trim_id isAD_not_space)
    from h have m: "spacesLetterDotText (ws0 @ L # 46 # ws @ t) = Some (L, t)"
      by (simp add: spacesLetterDotText_run)
    from h have n: "letterDotText (L # 46 # ws @ t) = Some (L, t)"
      by (simp add: spacesText_run)
    from tt t1 t2 t3 m n
    show "markedMatch CHECK (trim (CHECK # ws0 @ L # 46 # ws @ t)) = Some (L, t) \<and>
      markedMatch CROSS (trim (CROSS # ws0 @ L # 46 # ws @ t)) = Some (L, t) \<and>
      normalMatch (trim (L # 46 # ws @ t)) = Some (L, t) \<and>
      trim t = t"
      by (simp add: normalMatch_def del: letterDotText.simps)
  qed
  from one two three forms scan show ?thesis by blast
qed

theorem option_forms_in_priority_order_witness:
  "matchOption scanStart (CHECK # js '' B. 4'') (CHECK # js '' B. 4'') =
     scanStart\<lparr>foundOptions := True,
       scanOptions := [\<lparr>letter = js ''B'', optionText = js ''4'', status = Correct\<rparr>]\<rparr> \<and>
   matchOption scanStart (CROSS # js '' A. 3'') (CROSS # js '' A. 3'') =
     scanStart\<lparr>foundOptions := True,
       scanOptions := [\<lparr>letter = js ''A'', optionText = js ''3'', status = Incorrect\<rparr>]\<rparr> \<and>
   matchOption scanStart (js ''C. 5'') (js ''C. 5'') =
     scanStart\<lparr>foundOptions := True,
       scanOptions := [\<lparr>letter = js ''C'', optionText = js ''5'', status = Normal\<rparr>]\<rparr> \<and>
   markedMatch CHECK (trim (CHECK # [32] @ 66 # 46 # [32, 9] @ js ''Paris'')) =
     Some (66, js ''Paris'')"
proof -
  have m: "orElse (markedMatch CHECK (CHECK # js '' B. 4'')) (markedMatch CHECK (CHECK # js '' B. 4'')) =
      Some (66, js ''4'')"
    "orElse (markedMatch CHECK (CROSS # js '' A. 3'')) (markedMatch CHECK (CROSS # js '' A. 3'')) = None"
    "orElse (markedMatch CROSS (CROSS # js '' A. 3'')) (markedMatch CROSS (CROSS # js '' A. 3'')) =
      Some (65, js ''3'')"
    "orElse (markedMatch CHECK (js ''C. 5'')) (markedMatch CHECK (js ''C. 5'')) = None"
    "orElse (markedMatch CROSS (js ''C. 5'')) (markedMatch CROSS (js ''C. 5'')) = None"
    "normalMatch (js ''C. 5'') = Some (67, js ''5'')"
    by (simp_all add: eval_defs)
  have t: "trim (js ''4'') = js ''4''" "trim (js ''3'') = js ''3''" "trim (js ''5'') = js ''5''"
    "scanOptions scanStart = []" "js ''A'' = [65]" "js ''B'' = [66]" "js ''C'' = [67]"
    by (simp_all add: eval_defs)
  have f: "isAD 66 \<and> [32, 9] \<noteq> [] \<and> (\<forall>w \<in> set [32, 9]. isWhiteSpace w) \<and>
    (\<forall>w \<in> set [32]. isWhiteSpace w) \<and> js ''Paris'' \<noteq> [] \<and>
    \<not> isWhiteSpace (hd (js ''Paris'')) \<and> \<not> isWhiteSpace (last (js ''Paris'')) \<and>
    (\<forall>c \<in> set (js ''Paris''). \<not> isLineTerminator c)"
    by (simp add: eval_defs)
  note A = option_forms_in_priority_order
    [where trimmedLine = "CHECK # js '' B. 4''" and line = "CHECK # js '' B. 4''"
      and m = "(66, js ''4'')" and st = scanStart and L = 66 and ws = "[32, 9]" and ws0 = "[32]"
      and t = "js ''Paris''"]
  note B = option_forms_in_priority_order
    [where trimmedLine = "CROSS # js '' A. 3''" and line = "CROSS # js '' A. 3''"
      and m = "(65, js ''3'')" and st = scanStart]
  note C = option_forms_in_priority_order
    [where trimmedLine = "js ''C. 5''" and line = "js ''C. 5''"
      and m = "(67, js ''5'')" and st = scanStart]
  from A [THEN conjunct1] m(1)
  have a: "matchOption scanStart (CHECK # js '' B. 4'') (CHECK # js '' B. 4'') =
      scanStart\<lparr>foundOptions := True, scanOptions := scanOptions scanStart @
        [\<lparr>letter = [fst (66, js ''4'')], optionText = trim (snd (66::nat, js ''4'')), status = Correct\<rparr>]\<rparr>"
    by (rule mp)
  from A [THEN conjunct2, THEN conjunct2, THEN conjunct2, THEN conjunct1] f
  have "markedMatch CHECK (trim (CHECK # [32] @ 66 # 46 # [32, 9] @ js ''Paris'')) =
      Some (66, js ''Paris'') \<and>
    markedMatch CROSS (trim (CROSS # [32] @ 66 # 46 # [32, 9] @ js ''Paris'')) =
      Some (66, js ''Paris'') \<and>
    normalMatch (trim (66 # 46 # [32, 9] @ js ''Paris'')) = Some (66, js ''Paris'') \<and>
    trim (js ''Paris'') = js ''Paris''"
    by (rule mp)
  then have d: "markedMatch CHECK (trim (CHECK # [32] @ 66 # 46 # [32, 9] @ js ''Paris'')) =
      Some (66, js ''Paris'')"
    by (rule conjunct1)
  from m(2,3) have m23: "orElse (markedMatch CHECK (CROSS # js '' A. 3''))
       (markedMatch CHECK (CROSS # js '' A. 3'')) = None \<and>
    orElse (markedMatch CROSS (CROSS # js '' A. 3'')) (markedMatch CROSS (CROSS # js '' A. 3'')) =
      Some (65, js ''3'')"
    by (rule conjI)
  from B [THEN conjunct2, THEN conjunct1] m23
  have b: "matchOption scanStart (CROSS # js '' A. 3'') (CROSS # js '' A. 3'') =
      scanStart\<lparr>foundOptions := True, scanOptions := scanOptions scanStart @
        [\<lparr>letter = [fst (65, js ''3'')], optionText = trim (snd (65::nat, js ''3'')), status = Incorrect\<rparr>]\<rparr>"
    by (rule mp)
  from m(4,5,6) have m456: "orElse (markedMatch CHECK (js ''C. 5'')) (markedMatch CHECK (js ''C. 5'')) = None \<and>
    orElse (markedMatch CROSS (js ''C. 5'')) (markedMatch CROSS (js ''C. 5'')) = None \<and>
    normalMatch (js ''C. 5'') = Some (67, js ''5'')"
    by (intro conjI)
  from C [THEN conjunct2, THEN conjunct2, THEN conjunct1] m456
  have c: "matchOption scanStart (js ''C. 5'') (js ''C. 5'') =
      scanStart\<lparr>foundOptions := True, scanOptions := scanOptions scanStart @
        [\<lparr>letter = [fst (67, js ''5'')], optionText = trim (snd (67::nat, js ''5'')), status = Normal\<rparr>]\<rparr>"
    by (rule mp)
  have a': "matchOption scanStart (CHECK # js '' B. 4'') (CHECK # js '' B. 4'') =
     scanStart\<lparr>foundOptions := True,
       scanOptions := [\<lparr>letter = js ''B'', optionText = js ''4'', status = Correct\<rparr>]\<rparr>"
    unfolding a by (simp add: t)
  have b': "matchOption scanStart (CROSS # js '' A. 3'') (CROSS # js '' A. 3'') =
     scanStart\<lparr>foundOptions := True,
       scanOptions := [\<lparr>letter = js ''A'', optionText = js ''3'', status = Incorrect\<rparr>]\<rparr>"
    unfolding b by (simp add: t)
  have c': "matchOption scanStart (js ''C. 5'') (js ''C. 5'') =
     scanStart\<lparr>foundOptions := True,
       scanOptions := [\<lparr>letter = js ''C'', optionText = js ''5'', status = Normal\<rparr>]\<rparr>"
    unfolding c by (simp add: t)
  from a' b' c' d show ?thesis by (intro conjI)
qed

text \<open>
  C7, as the claim states it, fails: for the line \<open>**CHECK Correct!**\<close> the feedback is not
  that line but the line without the asterisks; and a line with the feedback phrase and a
  marker sets the hidden letter only, the question stays unanswered with empty feedback.
\<close>

theorem feedback_is_not_the_line_counterexample:
  "last (split_nl starredBody) = starredLine \<and> isFeedbackLine starredLine \<and>
   parseQuizQuestion False starredBody = Some starredQuiz \<and>
   feedback starredQuiz \<noteq> starredLine \<and>
   last (split_nl taggedBody) = taggedLine \<and> isFeedbackLine taggedLine \<and>
   parseQuizQuestion False taggedBody = Some quiz4 \<and>
   \<not> isAnswered quiz4 \<and> feedback quiz4 = []"
proof -
  have a: "last (split_nl starredBody) = starredLine" "isFeedbackLine starredLine"
    by (simp_all add: starredBody_def starredLine_def eval_defs)
  have b: "feedback starredQuiz \<noteq> starredLine"
    by (simp add: starredQuiz_def starredLine_def js_def)
  have c: "last (split_nl taggedBody) = taggedLine" "isFeedbackLine taggedLine"
    by (simp_all add: taggedBody_def taggedLine_def eval_defs)
  have d: "\<not> isAnswered quiz4" "feedback quiz4 = []"
    by (simp_all add: quiz4_def)
  from a b c d parse_starredBody parse_taggedBody show ?thesis by simp
qed

text \<open>
  C7, amended. For a body that parses, the question is answered if and only if some line
  has a feedback phrase (\<open>CHECK Correct\<close> or \<open>CROSS Incorrect\<close>) and no marker; the
  feedback is then the last such line, trimmed and with every \<open>**\<close> removed, and is empty
  otherwise; these lines are excluded from the question text and the option list (both are
  what the scan gives without them); a body with no line that has a feedback phrase parses
  with \<open>isAnswered = false\<close> and empty feedback.
\<close>

theorem feedback_line_sets_feedback:
  assumes "parseQuizQuestion isUser body = Some q"
  shows "isAnswered q = (filter setsFeedback (split_nl body) \<noteq> []) \<and>
    feedback q =
      (if filter setsFeedback (split_nl body) = [] then []
       else removeStars (trim (last (filter setsFeedback (split_nl body))))) \<and>
    question q =
      join_nl (questionLines
        (scanLines scanStart (filter (\<lambda>l. \<not> setsFeedback l) (split_nl body)))) \<and>
    options q =
      scanOptions (scanLines scanStart (filter (\<lambda>l. \<not> setsFeedback l) (split_nl body))) \<and>
    (list_all (\<lambda>l. \<not> isFeedbackLine (trim l)) (split_nl body) \<longrightarrow>
       \<not> isAnswered q \<and> feedback q = [])"
proof -
  let ?ls = "split_nl body"
  let ?st = "scanLines scanStart ?ls"
  from assms have q: "question q = join_nl (questionLines ?st)" "options q = scanOptions ?st"
    "feedback q = feedbackMessage ?st" "isAnswered q = scanIsAnswered ?st"
    by (auto simp: parseQuizQuestion_def toQuizData_def split: if_splits)
  have fb: "scanIsAnswered ?st = (filter setsFeedback ?ls \<noteq> [])"
    "feedbackMessage ?st = (if filter setsFeedback ?ls = [] then []
       else removeStars (trim (last (filter setsFeedback ?ls))))"
    using scanLines_feedback [of scanStart ?ls] by (simp_all add: scanStart_def)
  have "sameOutput ?st (scanLines scanStart (filter (\<lambda>l. \<not> setsFeedback l) ?ls))"
    by (rule scanLines_filter_same) (simp_all add: sameOutput_refl)
  then have same: "questionLines ?st =
      questionLines (scanLines scanStart (filter (\<lambda>l. \<not> setsFeedback l) ?ls))"
    "scanOptions ?st = scanOptions (scanLines scanStart (filter (\<lambda>l. \<not> setsFeedback l) ?ls))"
    by (simp_all add: sameOutput_def)
  have none: "list_all (\<lambda>l. \<not> isFeedbackLine (trim l)) ?ls \<longrightarrow> filter setsFeedback ?ls = []"
    by (auto simp: list_all_iff filter_empty_conv setsFeedback_def)
  from q fb same none show ?thesis by simp
qed

theorem feedback_line_sets_feedback_witness:
  "parseQuizQuestion False starredBody = Some starredQuiz \<and>
   filter setsFeedback (split_nl starredBody) = [starredLine] \<and>
   isAnswered starredQuiz \<and> feedback starredQuiz = removeStars (trim starredLine) \<and>
   parseQuizQuestion False body4 = Some quiz4 \<and>
   list_all (\<lambda>l. \<not> isFeedbackLine (trim l)) (split_nl body4) \<and>
   \<not> isAnswered quiz4 \<and> feedback quiz4 = []"
proof -
  have f: "filter setsFeedback (split_nl starredBody) = [starredLine]"
    by (simp add: starredBody_def starredLine_def setsFeedback_def eval_defs)
  have n: "list_all (\<lambda>l. \<not> isFeedbackLine (trim l)) (split_nl body4)"
    by (simp add: body4_def eval_defs)
  from feedback_line_sets_feedback [OF parse_starredBody]
    feedback_line_sets_feedback [OF parse_body4] f n parse_starredBody parse_body4
  show ?thesis by auto
qed

text \<open>
  C8. When the latest message is an assistant message whose content contains
  \<open>Quiz Complete\<close>, the effect sets the quiz-active flag to false and the stop control is
  not shown, whatever else the content matches; the body \<open>Quiz Complete! You scored 4/5.\<close>
  parses to no quiz question and, as latest assistant message, leaves the quiz inactive.
\<close>

theorem quiz_complete_stops_quiz:
  "(messages \<noteq> [] \<and> role (last messages) = ASSISTANT \<and>
    includesStr (content (last messages)) (js ''Quiz Complete'') \<longrightarrow>
      \<not> isQuizActive (detectQuiz messages w) \<and> \<not> stopShown (detectQuiz messages w)) \<and>
   parseQuizQuestion False (js ''Quiz Complete! You scored 4/5.'') = None \<and>
   \<not> isQuizActive
      (detectQuiz (earlier @ [msg ASSISTANT (js ''Quiz Complete! You scored 4/5.'')]) w)"
proof -
  have gen: "messages \<noteq> [] \<and> role (last messages) = ASSISTANT \<and>
    includesStr (content (last messages)) (js ''Quiz Complete'') \<longrightarrow>
      \<not> isQuizActive (detectQuiz messages w) \<and> \<not> stopShown (detectQuiz messages w)"
    by (simp add: detectQuiz_def stopShown_def isQuizComplete_def Let_def)
  have parse: "parseQuizQuestion False (js ''Quiz Complete! You scored 4/5.'') = None"
    by (simp add: eval_defs)
  have inc: "includesStr (js ''Quiz Complete! You scored 4/5.'') (js ''Quiz Complete'')"
    by (simp add: eval_defs)
  have scen: "\<not> isQuizActive
      (detectQuiz (earlier @ [msg ASSISTANT (js ''Quiz Complete! You scored 4/5.'')]) w)"
    using inc by (simp add: detectQuiz_def isQuizComplete_def Let_def msg_def)
  from gen parse scen show ?thesis by blast
qed

theorem quiz_complete_stops_quiz_witness:
  "[msg ASSISTANT lastRound] \<noteq> [] \<and> role (last [msg ASSISTANT lastRound]) = ASSISTANT \<and>
   includesStr (content (last [msg ASSISTANT lastRound])) (js ''Quiz Complete'') \<and>
   hasQuizQuestion lastRound \<and>
   \<not> isQuizActive (detectQuiz [msg ASSISTANT lastRound] \<lparr>isQuizActive = True, showSuccess = False\<rparr>)"
proof -
  have inc: "includesStr lastRound (js ''Quiz Complete'')"
    by (simp add: lastRound_def eval_defs)
  have pat: "hasQuizQuestion lastRound"
    by (simp add: lastRound_def hasQuizQuestion_def eval_defs)
  show ?thesis
    using quiz_complete_stops_quiz
      [of "[msg ASSISTANT lastRound]" "\<lparr>isQuizActive = True, showSuccess = False\<rparr>"] inc pat
    by (simp add: msg_def)
qed

section \<open>The claims about clicks and the optimistic overlay\<close>

text \<open>
  C9. If a body parses as a quiz question and none of its lines has a marker
  \<open>[CORRECT:<Letter>]\<close>, the hidden correct letter is empty and a click on any option
  leaves the state of the component as it was: no instant feedback, no selection, nothing
  sent.
\<close>

theorem click_without_hidden_letter_is_ignored:
  assumes "parseQuizQuestion isUser body = Some q"
    and "\<forall>l \<in> set (split_nl body). correctAnswerMatch (trim l) = None"
  shows "correctAnswerLetter q = [] \<and> onClick onSend q st opt = st \<and>
    handleOptionClick onSend st l (correctAnswerLetter q) = st"
proof -
  from assms(1) have "correctAnswerLetter q = scanCorrectLetter (scanLines scanStart (split_nl body))"
    by (auto simp: parseQuizQuestion_def toQuizData_def split: if_splits)
  with assms(2) have e: "correctAnswerLetter q = []"
    by (simp add: scanLines_keeps_letter scanStart_def)
  then show ?thesis
    by (simp add: onClick_def handleOptionClick_def)
qed

theorem click_without_hidden_letter_is_ignored_witness:
  "parseQuizQuestion False plainBody = Some (quiz4\<lparr>correctAnswerLetter := []\<rparr>) \<and>
   list_all (\<lambda>l. correctAnswerMatch (trim l) = None) (split_nl plainBody) \<and>
   onClick True (quiz4\<lparr>correctAnswerLetter := []\<rparr>) mounted optionA = mounted \<and>
   sentMessages (onClick True (quiz4\<lparr>correctAnswerLetter := []\<rparr>) mounted optionA) = []"
proof -
  have nomark: "\<forall>l \<in> set (split_nl plainBody). correctAnswerMatch (trim l) = None"
    by (simp add: plainBody_def eval_defs)
  from click_without_hidden_letter_is_ignored [OF parse_plainBody nomark, of True mounted optionA]
  show ?thesis using parse_plainBody nomark by (simp add: mounted_def list_all_iff)
qed

text \<open>
  C4 fails in the code. The four options of the first message all have the letter \<open>B\<close>, so
  their buttons have equal keys; the second message has the same key in the message list and
  is rendered by the same instance with the letters \<open>A\<close> to \<open>D\<close>, and buttons of the first
  render are left in the document with the handler of that render, in which no answer is
  selected. The first click on the displayed question records the selection and forwards
  \<open>B\<close>; two clicks on left buttons are no no-ops and forward \<open>B\<close> again, three letters in
  all. (With keys of their own the buttons forward at most one letter:
  \<open>distinct_keys_forward_once\<close>.)
\<close>

theorem leftover_buttons_forward_again:
  "chatMessageKey (js ''0'') (msg ASSISTANT repeatedBody) =
     chatMessageKey (js ''0'') (msg ASSISTANT letteredBody) \<and>
   quizDataOf (msg ASSISTANT repeatedBody) = Some repeatedQuiz \<and>
   buttonKeys repeatedQuiz = [js ''B'', js ''B'', js ''B'', js ''B''] \<and>
   run True
     [Render (msg ASSISTANT repeatedBody), Render (msg ASSISTANT letteredBody), Click bParis] =
   (\<lparr>selectedAnswer = Some (js ''B''), instantFeedback = Some pickedB,
     sentMessages = [js ''B''], effectDep = Some (Some False)\<rparr>,
    Some letteredQuiz, [(repeatedQuiz, None)]) \<and>
   sentMessages (fst (run True
     [Render (msg ASSISTANT repeatedBody), Render (msg ASSISTANT letteredBody),
      Click bParis, LeftoverClick 0 bLyon, LeftoverClick 0 bNice])) =
   [js ''B'', js ''B'', js ''B'']"
proof -
  have first: "run True
     [Render (msg ASSISTANT repeatedBody), Render (msg ASSISTANT letteredBody), Click bParis] =
   (\<lparr>selectedAnswer = Some (js ''B''), instantFeedback = Some pickedB,
     sentMessages = [js ''B''], effectDep = Some (Some False)\<rparr>,
    Some letteredQuiz, [(repeatedQuiz, None)])"
    by (simp add: run_def quiz_repeatedBody quiz_letteredBody life_defs quiz_facts keys_differ
        pickedB_def)
  have all: "sentMessages (fst (run True
     [Render (msg ASSISTANT repeatedBody), Render (msg ASSISTANT letteredBody),
      Click bParis, LeftoverClick 0 bLyon, LeftoverClick 0 bNice])) =
   [js ''B'', js ''B'', js ''B'']"
    by (simp add: run_def quiz_repeatedBody quiz_letteredBody life_defs quiz_facts keys_differ)
  from same_instance(1) [of "js ''0''"] quiz_repeatedBody keys_repeated first all
  show ?thesis by (intro conjI)
qed

text \<open>
  C5 fails in the code, by the same defect. The instance renders the message with four
  options \<open>B\<close> and then, under the same key, an answered question with the letters \<open>A\<close> to
  \<open>D\<close>; a click on a left button sets the instant feedback while the answered question is
  shown, and a further render of the answered question leaves it set: the dependency of the
  effect has not changed, so the effect does not run. (With keys of their own a render
  clears the overlay exactly when the question is answered:
  \<open>distinct_keys_overlay_cleared\<close>.)
\<close>

theorem leftover_button_sets_overlay_of_answered_question:
  "chatMessageKey (js ''0'') (msg ASSISTANT repeatedBody) =
     chatMessageKey (js ''0'') (msg ASSISTANT letteredAnswered) \<and>
   quizDataOf (msg ASSISTANT letteredAnswered) = Some letteredAnsweredQuiz \<and>
   isAnswered letteredAnsweredQuiz \<and>
   run True
     [Render (msg ASSISTANT repeatedBody), Render (msg ASSISTANT letteredAnswered),
      LeftoverClick 0 bLyon, Render (msg ASSISTANT letteredAnswered)] =
   (\<lparr>selectedAnswer = Some (js ''B''), instantFeedback = Some pickedB,
     sentMessages = [js ''B''], effectDep = Some (Some True)\<rparr>,
    Some letteredAnsweredQuiz, [(repeatedQuiz, None)])"
proof -
  have r: "run True
     [Render (msg ASSISTANT repeatedBody), Render (msg ASSISTANT letteredAnswered),
      LeftoverClick 0 bLyon, Render (msg ASSISTANT letteredAnswered)] =
   (\<lparr>selectedAnswer = Some (js ''B''), instantFeedback = Some pickedB,
     sentMessages = [js ''B''], effectDep = Some (Some True)\<rparr>,
    Some letteredAnsweredQuiz, [(repeatedQuiz, None)])"
    by (simp add: run_def quiz_repeatedBody quiz_letteredAnswered life_defs quiz_facts
        keys_differ pickedB_def)
  have a: "isAnswered letteredAnsweredQuiz" by (simp add: quiz_facts)
  from same_instance(2) [of "js ''0''"] quiz_letteredAnswered a r
  show ?thesis by (intro conjI)
qed

section \<open>Loading never shows a protocol message\<close>

lemma truncate_withKey: "message.truncate (withKey now m) = m"
  by (simp add: withKey_def message.truncate_def message.extend_def)

lemma content_withKey: "content (withKey now m) = content m"
  by (simp add: withKey_def message.extend_def)

text \<open>
  C10. When the messages of a chat are loaded, no message of the new state has a content
  that starts with \<open>FEEDBACK:\<close>; without their render keys the messages of the new state
  are exactly the other messages of the server's list, in the order of that list; and a
  reply that is a protocol message or a quiz answer makes \<open>handleSendMessage\<close> load the
  messages in this way.
\<close>

theorem loadMessages_drops_protocol_messages:
  "(\<forall>m \<in> set (loadMessages now chatMessages). \<not> isProtocolMessage (content m)) \<and>
   map message.truncate (loadMessages now chatMessages) =
     filter (\<lambda>m. \<not> isProtocolMessage (content m)) chatMessages \<and>
   subseq (map message.truncate (loadMessages now chatMessages)) chatMessages \<and>
   (\<forall>m \<in> set chatMessages. \<not> isProtocolMessage (content m) \<longrightarrow>
      m \<in> set (map message.truncate (loadMessages now chatMessages))) \<and>
   (isProtocolMessage (content (bot_message response)) \<or> is_quiz_answer response \<longrightarrow>
      handleSendMessage now chatMessages response messages = loadMessages now chatMessages)"
proof -
  have reload: "isProtocolMessage (content (bot_message response)) \<or> is_quiz_answer response \<longrightarrow>
      handleSendMessage now chatMessages response messages = loadMessages now chatMessages"
    by (simp add: handleSendMessage_def)
  have kept: "map message.truncate (loadMessages now chatMessages) =
      filter (\<lambda>m. \<not> isProtocolMessage (content m)) chatMessages"
    by (simp add: loadMessages_def o_def case_prod_unfold truncate_withKey)
  have none: "\<forall>m \<in> set (loadMessages now chatMessages). \<not> isProtocolMessage (content m)"
  proof
    fix m
    assume "m \<in> set (loadMessages now chatMessages)"
    then obtain i x where ix: "(i, x) \<in> set (enumerate 0
        (filter (\<lambda>msg. \<not> isProtocolMessage (content msg)) chatMessages))"
      and m: "m = withKey (now i) x"
      by (auto simp: loadMessages_def)
    from ix have "snd (i, x) \<in> snd ` set (enumerate 0
        (filter (\<lambda>msg. \<not> isProtocolMessage (content msg)) chatMessages))"
      by (rule imageI)
    then have "x \<in> set (filter (\<lambda>msg. \<not> isProtocolMessage (content msg)) chatMessages)"
      by (simp only: set_map [symmetric] map_snd_enumerate snd_conv)
    with m show "\<not> isProtocolMessage (content m)"
      by (simp add: content_withKey)
  qed
  have ordered: "subseq (map message.truncate (loadMessages now chatMessages)) chatMessages"
    unfolding kept by simp
  have all: "\<forall>m \<in> set chatMessages. \<not> isProtocolMessage (content m) \<longrightarrow>
      m \<in> set (map message.truncate (loadMessages now chatMessages))"
    unfolding kept by simp
  from none kept ordered all reload show ?thesis by blast
qed

theorem loadMessages_drops_protocol_messages_witness:
  "msg USER (js ''B'') \<in> set [msg ASSISTANT (js ''FEEDBACK:correct''), msg USER (js ''B'')] \<and>
   \<not> isProtocolMessage (content (msg USER (js ''B''))) \<and>
   withKey (js ''7'') (msg USER (js ''B'')) \<in>
     set (loadMessages (\<lambda>i. js ''7'')
       [msg ASSISTANT (js ''FEEDBACK:correct''), msg USER (js ''B'')]) \<and>
   map message.truncate
     (loadMessages (\<lambda>i. js ''7'')
       [msg ASSISTANT (js ''FEEDBACK:correct''), msg USER (js ''B'')]) =
   [msg USER (js ''B'')]"
  using loadMessages_drops_protocol_messages
    [of "\<lambda>i. js ''7''" "[msg ASSISTANT (js ''FEEDBACK:correct''), msg USER (js ''B'')]"]
  by (simp add: loadMessages_def isProtocolMessage_def startsWith_def msg_def js_def)

end
